theory Spec2Isabelle
  imports Main "HOL-Library.Sublist"
begin

section \<open>The session orchestrator of the Reflexible extension\<close>

text \<open>
  An embedding of the parts of the extension that run an agent session: the request
  helper (\<^verbatim>\<open>api.ts\<close>), the monitor of the event stream and the orchestrator
  (\<^verbatim>\<open>ai-session.ts\<close>), the artifact download (\<^verbatim>\<open>file-manager.ts\<close>) and the project
  handle (\<^verbatim>\<open>project-manager.ts\<close>).

  An \<^verbatim>\<open>async\<close> function is a function from the state before the call to its outcome and
  the state after it: \<open>Inr\<close> of the value the promise resolves with, \<open>Inl\<close> of the
  error it rejects with. The extension runs on one thread and awaits every call it
  makes, so a call runs to its end before the next one starts. What the platform, the
  server and the user contribute is a parameter (the record \<open>env\<close>); what the extension
  does to the outside is appended to a trace.
\<close>

section \<open>JavaScript strings\<close>

text \<open>
  A \<^typ>\<open>string\<close> holds a JavaScript string in its UTF-8 encoding, one \<^typ>\<open>char\<close> per
  byte. The operations below are the ones the extension calls; each is the platform's
  function read on that encoding. The separators, prefixes and patterns the extension
  passes are ASCII, and an ASCII byte never occurs inside a multi-byte UTF-8 sequence,
  so splitting, prefix tests and searching agree with the UTF-16 original.
\<close>

definition LF :: char where
  "LF = CHR 0x0A"

text \<open>
  \<^verbatim>\<open>s.split(sep)\<close> for a non-empty separator: the separator is matched from left to
  right, without overlap; the result always has at least one element.
\<close>

function js_split :: "string \<Rightarrow> string \<Rightarrow> string list" where
  "js_split sep [] = [[]]"
| "js_split sep (c # cs) =
     (if sep \<noteq> [] \<and> prefix sep (c # cs)
      then [] # js_split sep (drop (length sep) (c # cs))
      else (let r = js_split sep cs in (c # hd r) # tl r))"
  by pat_completeness auto
termination
  by (relation "measure (\<lambda>(sep, s). length s)") auto

text \<open>
  The code points that \<^verbatim>\<open>trim()\<close> removes (WhiteSpace and LineTerminator of ECMAScript),
  in UTF-8: U+0009 to U+000D, U+0020, U+00A0, U+1680, U+2000 to U+200A, U+2028, U+2029,
  U+202F, U+205F, U+3000 and U+FEFF.
\<close>

definition js_whitespace :: "string list" where
  "js_whitespace =
     [[CHR 0x09], [CHR 0x0A], [CHR 0x0B], [CHR 0x0C], [CHR 0x0D], [CHR 0x20],
      [CHR 0xC2, CHR 0xA0],
      [CHR 0xE1, CHR 0x9A, CHR 0x80],
      [CHR 0xE2, CHR 0x80, CHR 0x80], [CHR 0xE2, CHR 0x80, CHR 0x81],
      [CHR 0xE2, CHR 0x80, CHR 0x82], [CHR 0xE2, CHR 0x80, CHR 0x83],
      [CHR 0xE2, CHR 0x80, CHR 0x84], [CHR 0xE2, CHR 0x80, CHR 0x85],
      [CHR 0xE2, CHR 0x80, CHR 0x86], [CHR 0xE2, CHR 0x80, CHR 0x87],
      [CHR 0xE2, CHR 0x80, CHR 0x88], [CHR 0xE2, CHR 0x80, CHR 0x89],
      [CHR 0xE2, CHR 0x80, CHR 0x8A],
      [CHR 0xE2, CHR 0x80, CHR 0xA8], [CHR 0xE2, CHR 0x80, CHR 0xA9],
      [CHR 0xE2, CHR 0x80, CHR 0xAF],
      [CHR 0xE2, CHR 0x81, CHR 0x9F],
      [CHR 0xE3, CHR 0x80, CHR 0x80],
      [CHR 0xEF, CHR 0xBB, CHR 0xBF]]"

function strip_leading :: "string list \<Rightarrow> string \<Rightarrow> string" where
  "strip_leading ws s =
     (case find (\<lambda>w. w \<noteq> [] \<and> prefix w s) ws of
        None \<Rightarrow> s
      | Some w \<Rightarrow> strip_leading ws (drop (length w) s))"
  by pat_completeness auto
termination
  by (relation "measure (\<lambda>(ws, s). length s)") (auto simp: find_Some_iff prefix_def)

declare strip_leading.simps [simp del]

text \<open>\<^verbatim>\<open>s.trim()\<close>: white space is removed at the start, then at the end.\<close>

definition js_trim :: "string \<Rightarrow> string" where
  "js_trim s =
     rev (strip_leading (map rev js_whitespace) (rev (strip_leading js_whitespace s)))"

text \<open>\<^verbatim>\<open>s.includes(p)\<close>.\<close>

fun js_includes :: "string \<Rightarrow> string \<Rightarrow> bool" where
  "js_includes [] p = (p = [])"
| "js_includes (c # cs) p = (prefix p (c # cs) \<or> js_includes cs p)"

text \<open>
  \<^verbatim>\<open>s.toLowerCase()\<close> on the ASCII letters. The extension only searches the result for
  ASCII words in which no \<^verbatim>\<open>k\<close> occurs and no \<^verbatim>\<open>i\<close> is last; the two code points
  outside ASCII whose lower case contains an ASCII letter (U+212A gives \<^verbatim>\<open>k\<close>, U+0130
  gives \<^verbatim>\<open>i\<close> followed by U+0307) cannot complete such a word, so the searches have
  the same answer as on the platform's result.
\<close>

definition toLowerCase_char :: "char \<Rightarrow> char" where
  "toLowerCase_char c =
     (case map_of (zip ''ABCDEFGHIJKLMNOPQRSTUVWXYZ'' ''abcdefghijklmnopqrstuvwxyz'') c of
        Some l \<Rightarrow> l
      | None \<Rightarrow> c)"

definition toLowerCase :: "string \<Rightarrow> string" where
  "toLowerCase s = map toLowerCase_char s"

text \<open>
  \<^verbatim>\<open>s.substring(0, n)\<close> counts UTF-16 code units: a UTF-8 sequence of one to three bytes
  is one unit, a sequence of four bytes is two. Continuation bytes (\<^verbatim>\<open>10xxxxxx\<close>) follow
  their lead byte. Where the platform would cut a four-byte character in half, the whole
  character is left out.
\<close>

fun substring0 :: "nat \<Rightarrow> string \<Rightarrow> string" where
  "substring0 n [] = []"
| "substring0 n (c # cs) =
     (let b = (of_char c :: nat) in
      if 128 \<le> b \<and> b < 192 then c # substring0 n cs
      else if 240 \<le> b then (if 2 \<le> n then c # substring0 (n - 2) cs else [])
      else (if 1 \<le> n then c # substring0 (n - 1) cs else []))"

text \<open>The decimal text of a non-negative integer, as a template literal prints it.\<close>

fun show_nat :: "nat \<Rightarrow> string" where
  "show_nat n =
     (if n < 10 then [''0123456789'' ! n]
      else show_nat (n div 10) @ [''0123456789'' ! (n mod 10)])"

declare show_nat.simps [simp del]

text \<open>
  \<^verbatim>\<open>encodeURIComponent(s)\<close>: letters, digits and \<^verbatim>\<open>- _ . ! ~ * ' ( )\<close> are kept, every other
  byte of the UTF-8 encoding is written as \<^verbatim>\<open>%XX\<close>.
\<close>

definition uri_unreserved :: "char \<Rightarrow> bool" where
  "uri_unreserved c \<longleftrightarrow>
     c \<in> set (''ABCDEFGHIJKLMNOPQRSTUVWXYZabcdefghijklmnopqrstuvwxyz0123456789-_.!~*()''
              @ [CHR 0x27])"

definition percent_byte :: "char \<Rightarrow> string" where
  "percent_byte c =
     (let b = (of_char c :: nat) in
      [CHR ''%'', ''0123456789ABCDEF'' ! (b div 16), ''0123456789ABCDEF'' ! (b mod 16)])"

definition encodeURIComponent :: "string \<Rightarrow> string" where
  "encodeURIComponent s =
     concat (map (\<lambda>c. if uri_unreserved c then [c] else percent_byte c) s)"

text \<open>\<^verbatim>\<open>p.replace(/^output\//, '')\<close>.\<close>

definition strip_output_prefix :: "string \<Rightarrow> string" where
  "strip_output_prefix p = (if prefix ''output/'' p then drop 7 p else p)"

text \<open>
  \<^verbatim>\<open>Buffer.from(s, 'utf-8')\<close>: the bytes of the UTF-8 encoding, which is how a string is
  held here.
\<close>

definition Buffer_from_utf8 :: "string \<Rightarrow> string" where
  "Buffer_from_utf8 s = s"

section \<open>JSON values\<close>

text \<open>
  The values \<^verbatim>\<open>JSON.parse\<close> returns. A number is carried as the text JavaScript prints
  for it (\<^verbatim>\<open>String(n)\<close>, for instance \<^verbatim>\<open>0\<close>, \<^verbatim>\<open>1.5\<close> or \<^verbatim>\<open>1e+21\<close>); an object as its own
  properties, each key once. \<^verbatim>\<open>undefined\<close> is \<^term>\<open>None\<close> of \<open>json option\<close>.
\<close>

datatype json =
    JNull
  | JBool bool
  | JNum string
  | JStr string
  | JArr "json list"
  | JObj "(string \<times> json) list"

type_synonym jsval = "json option"

text \<open>
  Reading \<^verbatim>\<open>v.name\<close> for a name that no built-in prototype defines (\<^verbatim>\<open>type\<close>,
  \<^verbatim>\<open>message\<close>). On \<^verbatim>\<open>null\<close> the access throws a TypeError, which is \<^term>\<open>None\<close> here.
\<close>

fun get_prop :: "json \<Rightarrow> string \<Rightarrow> jsval option" where
  "get_prop JNull name = None"
| "get_prop (JObj kvs) name = Some (map_of kvs name)"
| "get_prop v name = Some None"

text \<open>Truthiness, as \<^verbatim>\<open>||\<close> and \<^verbatim>\<open>if\<close> test it.\<close>

fun js_truthy :: "jsval \<Rightarrow> bool" where
  "js_truthy None = False"
| "js_truthy (Some JNull) = False"
| "js_truthy (Some (JBool b)) = b"
| "js_truthy (Some (JNum s)) = (s \<noteq> ''0'')"
| "js_truthy (Some (JStr s)) = (s \<noteq> [])"
| "js_truthy (Some (JArr xs)) = True"
| "js_truthy (Some (JObj kvs)) = True"

text \<open>
  \<^verbatim>\<open>Array.prototype.join\<close> with a comma; \<^term>\<open>None\<close> when the conversion of an element
  throws.
\<close>

fun js_join :: "string option list \<Rightarrow> string option" where
  "js_join [] = Some []"
| "js_join [x] = x"
| "js_join (x # y # ys) =
     (case x of
        None \<Rightarrow> None
      | Some s \<Rightarrow> (case js_join (y # ys) of None \<Rightarrow> None | Some t \<Rightarrow> Some (s @ '','' @ t)))"

text \<open>
  The conversion to a string that \<^verbatim>\<open>+\<close> with a string, a template literal and
  \<^verbatim>\<open>new Error(v)\<close> apply. An object prints as \<^verbatim>\<open>[object Object]\<close> unless it has an own
  property \<^verbatim>\<open>toString\<close>, which after \<^verbatim>\<open>JSON.parse\<close> is never callable: then the
  conversion throws a TypeError (\<^term>\<open>None\<close>). An array joins its elements, with
  \<^verbatim>\<open>null\<close> printed as the empty string.
\<close>

fun js_to_string :: "json \<Rightarrow> string option" where
  "js_to_string JNull = Some ''null''"
| "js_to_string (JBool b) = Some (if b then ''true'' else ''false'')"
| "js_to_string (JNum s) = Some s"
| "js_to_string (JStr s) = Some s"
| "js_to_string (JArr xs) =
     js_join (map (\<lambda>x. if x = JNull then Some [] else js_to_string x) xs)"
| "js_to_string (JObj kvs) =
     (if map_of kvs ''toString'' \<noteq> None then None else Some ''[object Object]'')"

definition val_to_string :: "jsval \<Rightarrow> string option" where
  "val_to_string v = (case v of None \<Rightarrow> Some ''undefined'' | Some j \<Rightarrow> js_to_string j)"

section \<open>Errors, effects and the environment\<close>

text \<open>
  A thrown value is an Error object: its \<^verbatim>\<open>name\<close> and its \<^verbatim>\<open>message\<close>.
  \<^verbatim>\<open>new Error(m)\<close> has the name \<^verbatim>\<open>Error\<close>. A rejected promise is \<open>Inl\<close> of the error.
\<close>

datatype thrown = Thrown (err_name: string) (err_message: string)

definition new_Error :: "string \<Rightarrow> thrown" where
  "new_Error m = Thrown ''Error'' m"

text \<open>\<^verbatim>\<open>'' + e\<close> for an Error object (\<^verbatim>\<open>Error.prototype.toString\<close>).\<close>

definition error_to_string :: "thrown \<Rightarrow> string" where
  "error_to_string e =
     (if err_name e = [] then err_message e
      else if err_message e = [] then err_name e
      else err_name e @ '': '' @ err_message e)"

text \<open>
  An HTTP response: its status and its body text (\<^term>\<open>None\<close> when reading the body
  fails). \<^verbatim>\<open>res.ok\<close> holds for the statuses 200 to 299.
\<close>

record response =
  status :: nat
  body :: "string option"

definition ok :: "response \<Rightarrow> bool" where
  "ok res \<longleftrightarrow> 200 \<le> status res \<and> status res < 300"

text \<open>
  The body of the event stream: the text of each read, as the streaming
  \<^verbatim>\<open>TextDecoder\<close> returns it, in order; after the last one the reader reports
  \<^verbatim>\<open>done\<close>, or the read rejects with \<open>read_error\<close>.
\<close>

record sse_stream =
  chunks :: "string list"
  read_error :: "thrown option"

record sse_response =
  sse_status :: nat
  sse_body :: "sse_stream option"

text \<open>
  A location: a workspace folder and the path segments that \<^verbatim>\<open>Uri.joinPath\<close> has
  appended to it, in order.
\<close>

datatype uri = Uri string "string list"

fun joinPath :: "uri \<Rightarrow> string \<Rightarrow> uri" where
  "joinPath (Uri root segs) seg = Uri root (segs @ [seg])"

text \<open>An artifact of the server's list: its \<^verbatim>\<open>path\<close> and its \<^verbatim>\<open>content\<close>.\<close>

record artifact =
  artifact_path :: string
  artifact_content :: string

datatype mode_item = ChatItem | BasicItem | ProItem

text \<open>What the extension does to the outside, in the order it does it.\<close>

datatype effect =
    Fetch string string string "json option"
      \<comment> \<open>\<^verbatim>\<open>fetch\<close> of \<open>apiFetch\<close>: method, URL, \<^verbatim>\<open>x-api-key\<close>, body before \<^verbatim>\<open>JSON.stringify\<close>\<close>
  | FetchStream string string
      \<comment> \<open>\<^verbatim>\<open>fetch\<close> of the event stream: URL, \<^verbatim>\<open>x-api-key\<close>\<close>
  | OpenExternal string
  | ShowInputBox
  | ShowErrorMessage string
  | ShowInformationMessage string
  | ConsoleError "string list"
  | AppendLine string
      \<comment> \<open>\<^verbatim>\<open>outputChannel.appendLine\<close>\<close>
  | ProgressReport jsval
      \<comment> \<open>\<^verbatim>\<open>progress.report({ message })\<close>\<close>
  | ChatAddMessage string string
      \<comment> \<open>\<^verbatim>\<open>chatProvider.addMessage(role, content)\<close>\<close>
  | ChatSetSession string
  | CreateDirectory uri
  | WriteFile uri string

text \<open>
  The state the extension keeps: the secret \<^verbatim>\<open>reflexible.apiKey\<close>, the workspace
  state keys \<^verbatim>\<open>ephemeralProjectId\<close> and \<^verbatim>\<open>currentSessionId\<close>, and the effects so far.
\<close>

record world =
  apiKey :: "string option"
  ephemeralProjectId :: "string option"
  currentSessionId :: "string option"
  trace :: "effect list"

definition emit :: "effect \<Rightarrow> world \<Rightarrow> world" where
  "emit x w = w\<lparr>trace := trace w @ [x]\<rparr>"

text \<open>
  What the platform, the server and the user supply.
  \<^item> \<open>JSON_parse\<close> is \<^verbatim>\<open>JSON.parse\<close>, \<^term>\<open>None\<close> where it throws.
  \<^item> \<open>http\<close> answers a request of \<open>apiFetch\<close> (method, URL, key, body) and \<open>sse\<close> the
    request for the event stream (URL, key); \<open>Inl\<close> is a rejected \<^verbatim>\<open>fetch\<close>.
  \<^item> \<open>token n\<close> is \<^verbatim>\<open>token.isCancellationRequested\<close> at the \<open>n\<close>-th test, counted
    from 0.
  \<^item> \<open>key_prompt\<close> is the answer to the input box of \<open>ensureApiKey\<close>, \<open>user_message\<close>
    and \<open>selected_mode\<close> the answers to the two prompts of \<open>startAISession\<close>;
    \<^term>\<open>None\<close> is a dismissed prompt.
  \<^item> \<open>rfx_files\<close> are the \<^verbatim>\<open>.rfx\<close> files of the workspace, relative path and text.
  \<^item> \<open>createDirectory\<close> and \<open>writeFile\<close> are the two calls of \<^verbatim>\<open>vscode.workspace.fs\<close>
    that write: the error with which the call rejects, \<^term>\<open>None\<close> when it resolves.
  \<^item> The four \<open>read_\<close> functions are \<^verbatim>\<open>await res.json()\<close> followed by the field the
    caller reads, at the TypeScript type the caller gives it; \<open>Inl\<close> where either
    throws. For \<open>read_artifacts\<close> and \<open>read_sessionId\<close>, \<^term>\<open>None\<close> is a field that
    is absent or falsy.
\<close>

record env =
  JSON_parse :: "string \<Rightarrow> json option"
  baseUrl :: string
  http :: "string \<Rightarrow> string \<Rightarrow> string \<Rightarrow> json option \<Rightarrow> thrown + response"
  sse :: "string \<Rightarrow> string \<Rightarrow> thrown + sse_response"
  token :: "nat \<Rightarrow> bool"
  key_prompt :: "string option"
  user_message :: "string option"
  selected_mode :: "mode_item option"
  workspaceFolders :: "string list"
  rfx_files :: "(string \<times> string) list"
  createDirectory :: "uri \<Rightarrow> thrown option"
  writeFile :: "uri \<Rightarrow> string \<Rightarrow> thrown option"
  read_project_id :: "response \<Rightarrow> thrown + string"
  read_filesUploaded :: "response \<Rightarrow> thrown + nat"
  read_sessionId :: "response \<Rightarrow> thrown + string option"
  read_artifacts :: "response \<Rightarrow> thrown + artifact list option"

section \<open>api.ts\<close>

definition getApiKey :: "world \<Rightarrow> string option" where
  "getApiKey w =
     (case apiKey w of None \<Rightarrow> None | Some k \<Rightarrow> if k = [] then None else Some k)"

definition ensureApiKey :: "env \<Rightarrow> world \<Rightarrow> string option \<times> world" where
  "ensureApiKey e w =
     (case getApiKey w of
        Some existing \<Rightarrow> (Some existing, w)
      | None \<Rightarrow>
          let w1 = emit (OpenExternal (baseUrl e @ ''/ext/setup'')) w;
              w2 = emit ShowInputBox w1
          in (case key_prompt e of
                None \<Rightarrow> (None, w2)
              | Some k \<Rightarrow> if k = [] then (None, w2) else (Some k, w2\<lparr>apiKey := Some k\<rparr>)))"

text \<open>The four words that make a 401 or 403 an authentication failure.\<close>

definition auth_failure_text :: "string \<Rightarrow> bool" where
  "auth_failure_text text \<longleftrightarrow>
     js_includes (toLowerCase text) ''expired'' \<or>
     js_includes (toLowerCase text) ''invalid'' \<or>
     js_includes (toLowerCase text) ''unauthorized'' \<or>
     js_includes (toLowerCase text) ''access denied''"

text \<open>
  \<open>apiFetch\<close>. The buttons of the two error notifications act after the call has
  thrown, on a later click; the notification itself is recorded.
\<close>

definition apiFetch ::
  "env \<Rightarrow> string \<Rightarrow> string \<Rightarrow> json option \<Rightarrow> world \<Rightarrow> (thrown + response) \<times> world" where
  "apiFetch e path method payload w =
     (case ensureApiKey e w of
        (None, w1) \<Rightarrow> (Inl (new_Error ''Not authenticated''), w1)
      | (Some k, w1) \<Rightarrow>
          let url = baseUrl e @ path;
              w2 = emit (Fetch method url k payload) w1
          in (case http e method url k payload of
                Inl err \<Rightarrow> (Inl err, w2)
              | Inr res \<Rightarrow>
                  if \<not> ok res then
                    let text = (case body res of None \<Rightarrow> [] | Some t \<Rightarrow> t);
                        errorDetails =
                          ''API Error ['' @ show_nat (status res) @ '']:'' @ [LF]
                          @ ''Endpoint: '' @ path @ [LF] @ ''Response: '' @ text;
                        authStatus = (status res = 401 \<or> status res = 403);
                        w3 = (if authStatus
                              then emit (ConsoleError [''[Reflexible API]'', errorDetails]) w2
                              else w2)
                    in if authStatus \<and> auth_failure_text text then
                         (Inl (new_Error (''Authentication failed ('' @ show_nat (status res)
                                          @ ''): '' @ text)),
                          emit (ShowErrorMessage (''Authentication failed (''
                                  @ show_nat (status res) @ ''): '' @ substring0 100 text))
                            (w3\<lparr>apiKey := None\<rparr>))
                       else
                         (Inl (new_Error (show_nat (status res) @ '' '' @ text)),
                          emit (ShowErrorMessage (''Reflexible API Error (''
                                  @ show_nat (status res) @ ''): '' @ substring0 200 text)) w3)
                  else (Inr res, w2)))"

section \<open>ai-session.ts: the session monitor\<close>

subsection \<open>Frames\<close>

text \<open>
  One line of a frame: \<^verbatim>\<open>event:\<close> replaces the event name, \<^verbatim>\<open>data:\<close> appends to the
  payload.
\<close>

definition line_step :: "string \<times> string \<Rightarrow> string \<Rightarrow> string \<times> string" where
  "line_step ed line =
     (let (event, data) = ed;
          event1 = (if prefix ''event:'' line then js_trim (drop 6 line) else event);
          data1 = (if prefix ''data:'' line then data @ js_trim (drop 5 line) else data)
      in (event1, data1))"

definition frame_fields :: "string \<Rightarrow> string \<times> string" where
  "frame_fields part = foldl line_step (''message'', []) (js_split [LF] part)"

text \<open>
  One read: the text is appended to the buffer, the buffer is split at blank lines, the
  last piece is kept as the new buffer (\<^verbatim>\<open>parts.pop() || ''\<close>), the others are the
  frames. The pumps of the chat panel (\<^verbatim>\<open>streamSSE\<close>) and of the sidebar view
  (\<^verbatim>\<open>streamSse\<close>) read in the same three statements.
\<close>

definition split_buffer :: "string \<Rightarrow> string \<Rightarrow> string list \<times> string" where
  "split_buffer buffer chunk =
     (let parts = js_split [LF, LF] (buffer @ chunk)
      in (butlast parts, if parts = [] then [] else last parts))"

text \<open>The payload of a frame, parsed; \<^term>\<open>None\<close> when \<^verbatim>\<open>JSON.parse\<close> throws.\<close>

definition parse_frame :: "env \<Rightarrow> string \<Rightarrow> json option" where
  "parse_frame e part = JSON_parse e (snd (frame_fields part))"

text \<open>
  The events that a sequence of reads decodes, in order: the read loop of \<open>pump\<close> with
  the handling of each parsed payload replaced by collecting it.
\<close>

fun decode_stream :: "env \<Rightarrow> string \<Rightarrow> string list \<Rightarrow> json list" where
  "decode_stream e buffer [] = []"
| "decode_stream e buffer (c # cs) =
     (case split_buffer buffer c of
        (parts, buffer1) \<Rightarrow> List.map_filter (parse_frame e) parts @ decode_stream e buffer1 cs)"

subsection \<open>Handling one frame\<close>

text \<open>
  How a block ends: it runs to its end, it executes \<^verbatim>\<open>return\<close>, or it throws. The
  handler of the \<^verbatim>\<open>try\<close> around a frame never reads the thrown value.
\<close>

datatype completion = Normal | Returned | Threw

text \<open>
  The body of the \<^verbatim>\<open>try\<close>, on the payload \<open>data\<close> and the accumulated response. Once
  \<^verbatim>\<open>parsed.type\<close> has been read, \<open>parsed\<close> is not \<^verbatim>\<open>null\<close> and reading
  \<^verbatim>\<open>parsed.message\<close> does not throw.
\<close>

definition try_body ::
  "env \<Rightarrow> string \<Rightarrow> string \<Rightarrow> world \<Rightarrow> completion \<times> string \<times> world" where
  "try_body e data assistantResponse w =
     (case JSON_parse e data of
        None \<Rightarrow> (Threw, assistantResponse, w)
      | Some parsed \<Rightarrow>
          (case get_prop parsed ''type'' of
             None \<Rightarrow> (Threw, assistantResponse, w)
           | Some ty \<Rightarrow>
               let message = (case get_prop parsed ''message'' of None \<Rightarrow> None | Some m \<Rightarrow> m)
               in if ty = Some (JStr ''progress'') then
                    (let w1 = emit (ProgressReport message) w
                     in case val_to_string message of
                          None \<Rightarrow> (Threw, assistantResponse, w1)
                        | Some s \<Rightarrow>
                            (Normal, assistantResponse, emit (AppendLine (''Progress: '' @ s)) w1))
                  else if ty = Some (JStr ''complete'') then
                    (Returned, assistantResponse,
                     if assistantResponse \<noteq> []
                     then emit (ChatAddMessage ''assistant'' assistantResponse) w
                     else w)
                  else if ty = Some (JStr ''content'') then
                    (case val_to_string (if js_truthy message then message else Some (JStr [])) of
                       None \<Rightarrow> (Threw, assistantResponse, w)
                     | Some s \<Rightarrow> (Normal, assistantResponse @ s, w))
                  else if ty = Some (JStr ''error'') then
                    (Threw, assistantResponse, w)
                  else (Normal, assistantResponse, w)))"

text \<open>
  One iteration of the loop over the frames: the fields are extracted, the \<^verbatim>\<open>try\<close>
  body runs, and the \<^verbatim>\<open>catch\<close> ignores whatever it threw.
\<close>

definition process_part ::
  "env \<Rightarrow> string \<Rightarrow> string \<Rightarrow> world \<Rightarrow> completion \<times> string \<times> world" where
  "process_part e part assistantResponse w =
     (case frame_fields part of
        (event, data) \<Rightarrow>
          (case try_body e data assistantResponse w of
             (Threw, r, w1) \<Rightarrow> (Normal, r, w1)
           | res \<Rightarrow> res))"

fun for_parts ::
  "env \<Rightarrow> string list \<Rightarrow> string \<Rightarrow> world \<Rightarrow> completion \<times> string \<times> world" where
  "for_parts e [] assistantResponse w = (Normal, assistantResponse, w)"
| "for_parts e (part # parts) assistantResponse w =
     (case process_part e part assistantResponse w of
        (Returned, r, w1) \<Rightarrow> (Returned, r, w1)
      | (_, r, w1) \<Rightarrow> for_parts e parts r w1)"

subsection \<open>The read loop\<close>

text \<open>The two \<^verbatim>\<open>return\<close> statements of \<open>pump\<close>; the caller cannot tell them apart.\<close>

datatype pump_exit = AtComplete | AtEndOfStream

definition stop_request ::
  "env \<Rightarrow> string \<Rightarrow> world \<Rightarrow> (thrown + response) \<times> world" where
  "stop_request e sessionId w =
     apiFetch e ''/api/v1/agent/stop'' ''POST'' (Some (JObj [(''sessionId'', JStr sessionId)])) w"

text \<open>
  \<open>pump\<close>, at its \<open>n\<close>-th call: \<open>reads\<close> are the reads still to come, \<open>rerr\<close> is how
  the stream ends after them.
\<close>

fun pump ::
  "env \<Rightarrow> string \<Rightarrow> thrown option \<Rightarrow> nat \<Rightarrow> string list \<Rightarrow> string \<Rightarrow> string \<Rightarrow> world
     \<Rightarrow> (thrown + pump_exit) \<times> world" where
  "pump e sessionId rerr n [] buffer assistantResponse w =
     (if token e n then
        (case stop_request e sessionId w of
           (Inl err, w1) \<Rightarrow> (Inl err, w1)
         | (Inr res, w1) \<Rightarrow> (Inl (new_Error ''User cancelled''), w1))
      else
        (case rerr of
           Some err \<Rightarrow> (Inl err, w)
         | None \<Rightarrow> (Inr AtEndOfStream, w)))"
| "pump e sessionId rerr n (c # reads) buffer assistantResponse w =
     (if token e n then
        (case stop_request e sessionId w of
           (Inl err, w1) \<Rightarrow> (Inl err, w1)
         | (Inr res, w1) \<Rightarrow> (Inl (new_Error ''User cancelled''), w1))
      else
        (case split_buffer buffer c of
           (parts, buffer1) \<Rightarrow>
             (case for_parts e parts assistantResponse w of
                (Returned, r, w1) \<Rightarrow> (Inr AtComplete, w1)
              | (_, r, w1) \<Rightarrow> pump e sessionId rerr (Suc n) reads buffer1 r w1)))"

definition sse_url :: "env \<Rightarrow> string \<Rightarrow> string" where
  "sse_url e sessionId = baseUrl e @ ''/api/v1/sse?session_id='' @ encodeURIComponent sessionId"

definition monitorSession ::
  "env \<Rightarrow> string \<Rightarrow> world \<Rightarrow> (thrown + pump_exit) \<times> world" where
  "monitorSession e sessionId w =
     (case getApiKey w of
        None \<Rightarrow> (Inl (new_Error ''Not authenticated''), w)
      | Some k \<Rightarrow>
          let url = sse_url e sessionId;
              w1 = emit (FetchStream url k) w
          in (case sse e url k of
                Inl err \<Rightarrow> (Inl err, w1)
              | Inr resp \<Rightarrow>
                  if \<not> (200 \<le> sse_status resp \<and> sse_status resp < 300) then
                    (Inl (new_Error ''Failed to connect to SSE stream''), w1)
                  else
                    (case sse_body resp of
                       None \<Rightarrow> (Inl (new_Error ''Failed to connect to SSE stream''), w1)
                     | Some stream \<Rightarrow>
                         pump e sessionId (read_error stream) 0 (chunks stream) [] [] w1)))"

section \<open>file-manager.ts\<close>

definition file_json :: "string \<times> string \<Rightarrow> json" where
  "file_json f = JObj [(''path'', JStr (fst f)), (''content'', JStr (snd f))]"

definition uploadWorkspaceFiles ::
  "env \<Rightarrow> string \<Rightarrow> world \<Rightarrow> (thrown + nat) \<times> world" where
  "uploadWorkspaceFiles e projectId w =
     (if rfx_files e = [] then (Inr 0, w)
      else
        (case apiFetch e (''/api/v1/projects/'' @ projectId @ ''/files/upload-batch'') ''POST''
                (Some (JObj [(''files'', JArr (map file_json (rfx_files e)))])) w of
           (Inl err, w1) \<Rightarrow> (Inl err, w1)
         | (Inr res, w1) \<Rightarrow>
             (case read_filesUploaded e res of
                Inl err \<Rightarrow> (Inl err, w1)
              | Inr filesUploaded \<Rightarrow> (Inr filesUploaded, w1))))"

text \<open>
  The two file system calls. The call is recorded; it then resolves, or rejects with the
  error of the platform.
\<close>

definition fs_createDirectory :: "env \<Rightarrow> uri \<Rightarrow> world \<Rightarrow> (thrown + unit) \<times> world" where
  "fs_createDirectory e u w =
     (case createDirectory e u of
        Some err \<Rightarrow> (Inl err, emit (CreateDirectory u) w)
      | None \<Rightarrow> (Inr (), emit (CreateDirectory u) w))"

definition fs_writeFile :: "env \<Rightarrow> uri \<Rightarrow> string \<Rightarrow> world \<Rightarrow> (thrown + unit) \<times> world" where
  "fs_writeFile e u bytes w =
     (case writeFile e u bytes of
        Some err \<Rightarrow> (Inl err, emit (WriteFile u bytes) w)
      | None \<Rightarrow> (Inr (), emit (WriteFile u bytes) w))"

text \<open>
  The body of the loop over the artifacts, and the loop. Neither call is in a \<^verbatim>\<open>try\<close>:
  the first one that rejects ends the loop and \<open>downloadArtifacts\<close> with its error.
\<close>

definition write_artifact ::
  "env \<Rightarrow> uri \<Rightarrow> artifact \<Rightarrow> world \<Rightarrow> (thrown + unit) \<times> world" where
  "write_artifact e outputDir a w =
     (let filePath = joinPath outputDir (strip_output_prefix (artifact_path a));
          dirPath = joinPath filePath ''..''
      in case fs_createDirectory e dirPath w of
           (Inl err, w1) \<Rightarrow> (Inl err, w1)
         | (Inr u, w1) \<Rightarrow>
             (case fs_writeFile e filePath (Buffer_from_utf8 (artifact_content a)) w1 of
                (Inl err, w2) \<Rightarrow> (Inl err, w2)
              | (Inr v, w2) \<Rightarrow>
                  (Inr (), emit (AppendLine (''Downloaded: '' @ artifact_path a)) w2)))"

fun for_artifacts ::
  "env \<Rightarrow> uri \<Rightarrow> artifact list \<Rightarrow> world \<Rightarrow> (thrown + unit) \<times> world" where
  "for_artifacts e outputDir [] w = (Inr (), w)"
| "for_artifacts e outputDir (a # artifacts) w =
     (case write_artifact e outputDir a w of
        (Inl err, w1) \<Rightarrow> (Inl err, w1)
      | (Inr u, w1) \<Rightarrow> for_artifacts e outputDir artifacts w1)"

definition downloadArtifacts ::
  "env \<Rightarrow> string \<Rightarrow> world \<Rightarrow> (thrown + nat) \<times> world" where
  "downloadArtifacts e sessionId w =
     (case workspaceFolders e of
        [] \<Rightarrow>
          (Inr 0, emit (ShowErrorMessage ''No workspace folder open - cannot download artifacts'') w)
      | folder # others \<Rightarrow>
          (case apiFetch e (''/api/v1/sessions/'' @ sessionId @ ''/artifacts'') ''GET'' None w of
             (Inl err, w1) \<Rightarrow> (Inl err, w1)
           | (Inr res, w1) \<Rightarrow>
               (case read_artifacts e res of
                  Inl err \<Rightarrow> (Inl err, w1)
                | Inr None \<Rightarrow> (Inr 0, emit (AppendLine ''No artifacts to download'') w1)
                | Inr (Some artifacts) \<Rightarrow>
                    if length artifacts = 0 then
                      (Inr 0, emit (AppendLine ''No artifacts to download'') w1)
                    else
                      let outputDir = joinPath (Uri folder []) ''output''
                      in (case fs_createDirectory e outputDir w1 of
                            (Inl err, w2) \<Rightarrow> (Inl err, w2)
                          | (Inr u, w2) \<Rightarrow>
                              (case for_artifacts e outputDir artifacts w2 of
                                 (Inl err, w3) \<Rightarrow> (Inl err, w3)
                               | (Inr v, w3) \<Rightarrow>
                                   (Inr (length artifacts),
                                    emit (ShowInformationMessage
                                            (''Downloaded '' @ show_nat (length artifacts)
                                             @ '' artifact(s) to output/'')) w3))))))"

text \<open>
  The extensions that the commands saving project files treat as binary
  (\<^verbatim>\<open>isBinary\<close> in \<^verbatim>\<open>extension.ts\<close>).
\<close>

definition isBinary :: "string \<Rightarrow> bool" where
  "isBinary p \<longleftrightarrow> suffix ''.uf2'' p \<or> suffix ''.bin'' p \<or> suffix ''.hex'' p \<or> suffix ''.elf'' p"

section \<open>project-manager.ts\<close>

definition getEphemeralProject :: "env \<Rightarrow> world \<Rightarrow> (thrown + string) \<times> world" where
  "getEphemeralProject e w =
     (case (case ephemeralProjectId w of
              None \<Rightarrow> None
            | Some stored \<Rightarrow> if stored = [] then None else Some stored) of
        Some projectId \<Rightarrow> (Inr projectId, w)
      | None \<Rightarrow>
          (case apiFetch e ''/api/v1/projects/ephemeral'' ''POST''
                  (Some (JObj [(''name'', JStr ''VSCode Session'')])) w of
             (Inl err, w1) \<Rightarrow> (Inl err, w1)
           | (Inr res, w1) \<Rightarrow>
               (case read_project_id e res of
                  Inl err \<Rightarrow> (Inl err, w1)
                | Inr projectId \<Rightarrow> (Inr projectId, w1\<lparr>ephemeralProjectId := Some projectId\<rparr>))))"

definition cleanupEphemeralProject ::
  "env \<Rightarrow> string \<Rightarrow> world \<Rightarrow> (thrown + unit) \<times> world" where
  "cleanupEphemeralProject e projectId w =
     (let w1 = emit (AppendLine (''Cleaning up ephemeral project: '' @ projectId)) w
      in case apiFetch e (''/api/v1/projects/'' @ projectId @ ''/cleanup'') ''DELETE'' None w1 of
           (Inl err, w2) \<Rightarrow>
             (Inr (), emit (AppendLine (''Failed to cleanup project: '' @ error_to_string err)) w2)
         | (Inr res, w2) \<Rightarrow>
             (Inr (), emit (AppendLine ''Ephemeral project cleaned up'')
                        (w2\<lparr>ephemeralProjectId := None\<rparr>)))"

section \<open>ai-session.ts: the orchestrator\<close>

text \<open>
  The quick pick offers three fixed items; the mode is read off the label of the chosen
  one (\<^verbatim>\<open>Chat\<close>, \<^verbatim>\<open>Basic\<close>, otherwise \<^verbatim>\<open>pro\<close>).
\<close>

fun computeConfig_of :: "mode_item \<Rightarrow> string" where
  "computeConfig_of ChatItem = ''chat''"
| "computeConfig_of BasicItem = ''basic''"
| "computeConfig_of ProItem = ''pro''"

text \<open>U+2705, the check mark that opens the completion notice.\<close>

definition check_mark :: string where
  "check_mark = [CHR 0xE2, CHR 0x9C, CHR 0x85]"

text \<open>
  The \<^verbatim>\<open>try\<close> block of \<open>startAISession\<close> (\<open>session_try\<close>), in two parts: the steps
  up to the dispatch, which yield the project and the session (\<open>session_dispatch\<close>),
  and the steps from the monitor on (\<open>session_run\<close>).
\<close>

definition session_run ::
  "env \<Rightarrow> string \<Rightarrow> string \<Rightarrow> world \<Rightarrow> (thrown + unit) \<times> world" where
  "session_run e projectId sessionId w =
     (let w1 = emit (ProgressReport (Some (JStr ''Processing...''))) w
      in case monitorSession e sessionId w1 of
           (Inl err, w2) \<Rightarrow> (Inl err, w2)
         | (Inr ex, w2) \<Rightarrow>
             let w3 = emit (ProgressReport (Some (JStr ''Downloading artifacts...''))) w2
             in (case downloadArtifacts e sessionId w3 of
                   (Inl err, w4) \<Rightarrow> (Inl err, w4)
                 | (Inr artifactCount, w4) \<Rightarrow>
                     if artifactCount > 0 then
                       (let w5 = emit (ShowInformationMessage
                                   (check_mark @ '' Session complete! Downloaded ''
                                    @ show_nat artifactCount @ '' artifacts to output/'')) w4
                        in cleanupEphemeralProject e projectId w5)
                     else (Inr (), w4)))"

definition session_dispatch ::
  "env \<Rightarrow> string \<Rightarrow> string \<Rightarrow> world \<Rightarrow> (thrown + string \<times> string) \<times> world" where
  "session_dispatch e message computeConfig w =
     (let w1 = emit (ProgressReport (Some (JStr ''Creating project...''))) w
      in case getEphemeralProject e w1 of
           (Inl err, w2) \<Rightarrow> (Inl err, w2)
         | (Inr projectId, w2) \<Rightarrow>
             let w3 = emit (ProgressReport (Some (JStr ''Uploading workspace files...''))) w2
             in (case uploadWorkspaceFiles e projectId w3 of
                   (Inl err, w4) \<Rightarrow> (Inl err, w4)
                 | (Inr filesUploaded, w4) \<Rightarrow>
                     let w5 = emit (AppendLine (''Uploaded '' @ show_nat filesUploaded
                                      @ '' workspace file(s)'')) w4;
                         w6 = emit (ProgressReport
                                      (Some (JStr (''Starting '' @ computeConfig @ '' mode...'')))) w5
                     in (case apiFetch e ''/api/v1/agent/dispatch'' ''POST''
                                (Some (JObj [(''projectId'', JStr projectId),
                                             (''message'', JStr message),
                                             (''computeConfig'', JStr computeConfig)])) w6 of
                           (Inl err, w7) \<Rightarrow> (Inl err, w7)
                         | (Inr res, w7) \<Rightarrow>
                             (case read_sessionId e res of
                                Inl err \<Rightarrow> (Inl err, w7)
                              | Inr None \<Rightarrow>
                                  (Inl (new_Error ''No session ID returned from server''), w7)
                              | Inr (Some sessionId) \<Rightarrow>
                                  if sessionId = [] then
                                    (Inl (new_Error ''No session ID returned from server''), w7)
                                  else
                                    let w8 = emit (ChatSetSession sessionId) w7;
                                        w9 = w8\<lparr>currentSessionId := Some sessionId\<rparr>;
                                        w10 = emit (AppendLine (''Session ID: '' @ sessionId)) w9
                                    in (Inr (projectId, sessionId), w10)))))"

definition session_try ::
  "env \<Rightarrow> string \<Rightarrow> string \<Rightarrow> world \<Rightarrow> (thrown + unit) \<times> world" where
  "session_try e message computeConfig w =
     (case session_dispatch e message computeConfig w of
        (Inl err, w1) \<Rightarrow> (Inl err, w1)
      | (Inr (projectId, sessionId), w1) \<Rightarrow> session_run e projectId sessionId w1)"

definition startAISession :: "env \<Rightarrow> world \<Rightarrow> world" where
  "startAISession e w =
     (case user_message e of
        None \<Rightarrow> w
      | Some message \<Rightarrow>
          if message = [] then w
          else
            (case selected_mode e of
               None \<Rightarrow> w
             | Some selectedMode \<Rightarrow>
                 let computeConfig = computeConfig_of selectedMode;
                     w1 = emit (ChatAddMessage ''user'' message) w
                 in (case session_try e message computeConfig w1 of
                       (Inl error, w2) \<Rightarrow>
                         if err_message error \<noteq> ''User cancelled'' then
                           emit (ChatAddMessage ''assistant'' (''Error: '' @ err_message error))
                             (emit (ShowErrorMessage (''Session failed: '' @ err_message error))
                                (emit (AppendLine (''ERROR: '' @ err_message error)) w2))
                         else w2
                     | (Inr u, w2) \<Rightarrow> w2)))"

section \<open>Vocabulary of the properties\<close>

text \<open>
  The complete frames of a stream: the pieces of its whole text between blank lines,
  without the unfinished last piece.
\<close>

definition stream_frames :: "string list \<Rightarrow> string list" where
  "stream_frames cs = butlast (js_split [LF, LF] (concat cs))"

text \<open>The frame decodes to an event whose \<^verbatim>\<open>type\<close> is the string \<open>t\<close>.\<close>

definition is_event :: "env \<Rightarrow> string \<Rightarrow> string \<Rightarrow> bool" where
  "is_event e t p =
     (case parse_frame e p of
        None \<Rightarrow> False
      | Some parsed \<Rightarrow> get_prop parsed ''type'' = Some (Some (JStr t)))"

text \<open>The frame decodes to a Content event whose text is the string \<open>m\<close>.\<close>

definition is_content :: "env \<Rightarrow> string \<Rightarrow> string \<Rightarrow> bool" where
  "is_content e p m =
     (case parse_frame e p of
        None \<Rightarrow> False
      | Some parsed \<Rightarrow>
          get_prop parsed ''type'' = Some (Some (JStr ''content'')) \<and>
          get_prop parsed ''message'' = Some (Some (JStr m)))"

text \<open>
  The monitor gets as far as its read loop: a key \<open>k\<close> is stored and the request for
  the event stream is answered with a 2xx status and the body \<open>stream\<close>.
\<close>

definition connected :: "env \<Rightarrow> string \<Rightarrow> world \<Rightarrow> string \<Rightarrow> sse_stream \<Rightarrow> bool" where
  "connected e sessionId w k stream =
     (getApiKey w = Some k \<and>
      (case sse e (sse_url e sessionId) k of
         Inl err \<Rightarrow> False
       | Inr resp \<Rightarrow>
           200 \<le> sse_status resp \<and> sse_status resp < 300 \<and> sse_body resp = Some stream))"

fun is_chat_message :: "effect \<Rightarrow> bool" where
  "is_chat_message (ChatAddMessage role text) = True"
| "is_chat_message x = False"

fun is_fs_effect :: "effect \<Rightarrow> bool" where
  "is_fs_effect (CreateDirectory u) = True"
| "is_fs_effect (WriteFile u bytes) = True"
| "is_fs_effect x = False"

text \<open>
  The effects of the steps that follow a completed session (the GET of the artifact
  list, the file system calls, the DELETE of the project) and the error notification.
  Every other request of the extension is a POST.
\<close>

fun completion_or_alarm :: "effect \<Rightarrow> bool" where
  "completion_or_alarm (Fetch method url k payload) = (method = ''GET'' \<or> method = ''DELETE'')"
| "completion_or_alarm (CreateDirectory u) = True"
| "completion_or_alarm (WriteFile u bytes) = True"
| "completion_or_alarm (ShowErrorMessage m) = True"
| "completion_or_alarm x = False"

text \<open>
  The file system calls for one artifact under the folder \<open>folder\<close>: its directory is
  created, then its content is written as UTF-8 text under \<^verbatim>\<open>output\<close>, at its path
  without a leading \<^verbatim>\<open>output/\<close>.
\<close>

definition artifact_writes :: "string \<Rightarrow> artifact \<Rightarrow> effect list" where
  "artifact_writes folder a =
     [CreateDirectory (Uri folder [''output'', strip_output_prefix (artifact_path a), ''..'']),
      WriteFile (Uri folder [''output'', strip_output_prefix (artifact_path a)])
        (Buffer_from_utf8 (artifact_content a))]"

text \<open>
  The file system calls that a download of the artifacts \<open>as\<close> sets out to make, in
  order: the \<^verbatim>\<open>output\<close> directory, then the calls for each artifact.
\<close>

definition planned_calls :: "string \<Rightarrow> artifact list \<Rightarrow> effect list" where
  "planned_calls folder as =
     CreateDirectory (Uri folder [''output'']) # concat (map (artifact_writes folder) as)"

text \<open>The error with which a file system call rejects, if it does.\<close>

fun fs_failure :: "env \<Rightarrow> effect \<Rightarrow> thrown option" where
  "fs_failure e (CreateDirectory u) = createDirectory e u"
| "fs_failure e (WriteFile u bytes) = writeFile e u bytes"
| "fs_failure e x = None"

text \<open>
  Of a sequence of calls made one after the other until one rejects: the calls that are
  made, the rejected one included, and the error of the rejected one.
\<close>

fun calls_made :: "env \<Rightarrow> effect list \<Rightarrow> effect list" where
  "calls_made e [] = []"
| "calls_made e (c # cs) =
     (case fs_failure e c of None \<Rightarrow> c # calls_made e cs | Some err \<Rightarrow> [c])"

fun first_failure :: "env \<Rightarrow> effect list \<Rightarrow> thrown option" where
  "first_failure e [] = None"
| "first_failure e (c # cs) =
     (case fs_failure e c of None \<Rightarrow> first_failure e cs | Some err \<Rightarrow> Some err)"

text \<open>
  The requests, and the effects that the handling of an event can have: a progress
  report, a line on the output channel, a message to the chat.
\<close>

fun request_or_event :: "effect \<Rightarrow> bool" where
  "request_or_event (Fetch method url k payload) = True"
| "request_or_event (FetchStream url k) = True"
| "request_or_event (ProgressReport v) = True"
| "request_or_event (AppendLine line) = True"
| "request_or_event (ChatAddMessage role text) = True"
| "request_or_event x = False"

text \<open>
  How the read loop ends once the frames of the stream have been handled: at the
  \<^verbatim>\<open>return\<close> of a Complete event, or else as the stream ends.
\<close>

definition finish ::
  "thrown option \<Rightarrow> completion \<times> string \<times> world \<Rightarrow> (thrown + pump_exit) \<times> world" where
  "finish rerr res =
     (case res of
        (Returned, r, w1) \<Rightarrow> (Inr AtComplete, w1)
      | (_, r, w1) \<Rightarrow>
          (case rerr of Some err \<Rightarrow> (Inl err, w1) | None \<Rightarrow> (Inr AtEndOfStream, w1)))"

section \<open>Examples\<close>

text \<open>
  \<^verbatim>\<open>JSON.parse\<close> on the payloads that the examples send. It agrees with the platform's
  function on these texts; every other text is taken not to parse, and the examples use
  that only for \<^verbatim>\<open>not json\<close>.
\<close>

definition sample_parse :: "string \<Rightarrow> json option" where
  \<open>sample_parse =
     map_of
       [(''{"type":"complete"}'', JObj [(''type'', JStr ''complete'')]),
        (''{"type":"content","message":"Hello, "}'',
           JObj [(''type'', JStr ''content''), (''message'', JStr ''Hello, '')]),
        (''{"type":"content","message":"world!"}'',
           JObj [(''type'', JStr ''content''), (''message'', JStr ''world!'')]),
        (''{"type":"content","message":""}'',
           JObj [(''type'', JStr ''content''), (''message'', JStr [])]),
        (''{"type":"content","message":"late"}'',
           JObj [(''type'', JStr ''content''), (''message'', JStr ''late'')]),
        (''{"type":"error","message":"boom"}'',
           JObj [(''type'', JStr ''error''), (''message'', JStr ''boom'')])]\<close>

text \<open>
  An environment in which every request and every file system call succeeds, nothing is
  cancelled, one workspace folder is open and the event stream delivers the reads \<open>cs\<close>;
  and a state with a stored key.
\<close>

definition sample_env :: "string list \<Rightarrow> env" where
  "sample_env cs =
     \<lparr> JSON_parse = sample_parse,
       baseUrl = ''https://reflexible-web-dev.fly.dev'',
       http = (\<lambda>method url k payload. Inr \<lparr> status = 200, body = Some ''{}'' \<rparr>),
       sse = (\<lambda>url k. Inr \<lparr> sse_status = 200,
                              sse_body = Some \<lparr> chunks = cs, read_error = None \<rparr> \<rparr>),
       token = (\<lambda>n. False),
       key_prompt = None,
       user_message = Some ''Create a traffic light controller'',
       selected_mode = Some BasicItem,
       workspaceFolders = [''file:///ws''],
       rfx_files = [],
       createDirectory = (\<lambda>u. None),
       writeFile = (\<lambda>u bytes. None),
       read_project_id = (\<lambda>res. Inr ''p1''),
       read_filesUploaded = (\<lambda>res. Inr 0),
       read_sessionId = (\<lambda>res. Inr (Some ''s1'')),
       read_artifacts = (\<lambda>res. Inr None) \<rparr>"

definition sample_world :: world where
  "sample_world =
     \<lparr> apiKey = Some ''rfx_key'', ephemeralProjectId = None, currentSessionId = None,
       trace = [] \<rparr>"

text \<open>
  A stream of one Content event and one Complete event, cut into four reads in the
  middle of a payload, of the blank line and of a prefix; its last piece is unfinished.
\<close>

definition chunked_example :: "string list" where
  \<open>chunked_example =
     [''data: {"type":"content","mess'', ''age":"Hello, "}\<newline>'',
      ''\<newline>event: done\<newline>data: {"type":"comp'', ''lete"}\<newline>\<newline>da'']\<close>

text \<open>The streams of the examples, as the reads deliver them.\<close>

definition error_example :: "string list" where
  \<open>error_example =
     [''data: {"type":"error","message":"boom"}\<newline>\<newline>data: {"type":"content","message":"late"}\<newline>\<newline>data: {"type":"complete"}\<newline>\<newline>'']\<close>

definition truncated_example :: "string list" where
  \<open>truncated_example = [''data: {"type":"content","message":"Hello, "}\<newline>\<newline>'']\<close>

definition empty_content_example :: "string list" where
  \<open>empty_content_example =
     [''data: {"type":"content","message":""}\<newline>\<newline>data: {"type":"complete"}\<newline>\<newline>'']\<close>

definition hello_example :: "string list" where
  \<open>hello_example =
     [''data: {"type":"content","message":"Hello, "}\<newline>\<newline>'',
      ''data: {"type":"content","message":"world!"}\<newline>\<newline>data: {"type":"complete"}\<newline>\<newline>'']\<close>

definition bad_frame_example :: "string list" where
  \<open>bad_frame_example =
     [''data: {"type":"content","message":"Hello, "}\<newline>\<newline>data: not json\<newline>\<newline>'',
      ''data: {"type":"content","message":"world!"}\<newline>\<newline>data: {"type":"complete"}\<newline>\<newline>'']\<close>

definition sample_sse_url :: string where
  "sample_sse_url = ''https://reflexible-web-dev.fly.dev/api/v1/sse?session_id=s1''"

definition sample_stop_url :: string where
  "sample_stop_url = ''https://reflexible-web-dev.fly.dev/api/v1/agent/stop''"

text \<open>Single frames of these streams.\<close>

definition hello_frame :: string where
  \<open>hello_frame = ''data: {"type":"content","message":"Hello, "}''\<close>

definition world_frame :: string where
  \<open>world_frame = ''data: {"type":"content","message":"world!"}''\<close>

definition complete_frame :: string where
  \<open>complete_frame = ''data: {"type":"complete"}''\<close>

definition bad_frame :: string where
  \<open>bad_frame = ''data: not json''\<close>

text \<open>The sample environment with the token signalled from the start.\<close>

definition cancelled_env :: "string list \<Rightarrow> env" where
  "cancelled_env cs = (sample_env cs)\<lparr> token := (\<lambda>n. True) \<rparr>"

text \<open>The same, with a server that answers the stop request with a 500.\<close>

definition stop_failing_env :: "string list \<Rightarrow> env" where
  "stop_failing_env cs =
     (cancelled_env cs)\<lparr> http := (\<lambda>method url k payload.
        if url = sample_stop_url then Inr \<lparr> status = 500, body = Some ''stop failed'' \<rparr>
        else Inr \<lparr> status = 200, body = Some ''{}'' \<rparr>) \<rparr>"

text \<open>
  The sample environment with a server that answers every request of \<open>apiFetch\<close> with
  the given status and body text.
\<close>

definition answering_env :: "nat \<Rightarrow> string \<Rightarrow> env" where
  "answering_env st txt =
     (sample_env [])\<lparr> http := (\<lambda>method url k payload. Inr \<lparr> status = st, body = Some txt \<rparr>) \<rparr>"

text \<open>The sample state with an execution context persisted.\<close>

definition project_world :: world where
  "project_world = sample_world\<lparr> ephemeralProjectId := Some ''p1'' \<rparr>"

text \<open>The sample environment with a server whose artifact list is \<open>as\<close>.\<close>

definition artifacts_env :: "artifact list \<Rightarrow> env" where
  "artifacts_env as = (sample_env [])\<lparr> read_artifacts := (\<lambda>res. Inr (Some as)) \<rparr>"

text \<open>
  The same, on a file system that refuses to write \<^verbatim>\<open>output/b.bin\<close> and accepts every
  other call.
\<close>

definition disk_error :: thrown where
  "disk_error = Thrown ''EntryIsADirectory (FileSystemError)'' ''b.bin is a directory''"

definition refusing_env :: "artifact list \<Rightarrow> env" where
  "refusing_env as =
     (artifacts_env as)\<lparr> writeFile := (\<lambda>u bytes.
        if u = Uri ''file:///ws'' [''output'', ''b.bin''] then Some disk_error else None) \<rparr>"

definition header_artifact :: artifact where
  "header_artifact = \<lparr> artifact_path = ''output/a.h'', artifact_content = ''x'' \<rparr>"

definition binary_artifact :: artifact where
  "binary_artifact = \<lparr> artifact_path = ''output/b.bin'', artifact_content = ''AAEC'' \<rparr>"

definition text_artifact :: artifact where
  "text_artifact = \<lparr> artifact_path = ''output/b.txt'', artifact_content = ''AAEC'' \<rparr>"

section \<open>Splitting and chunking\<close>

lemma js_split_nonempty: "js_split sep s \<noteq> []"
  by (induction sep s rule: js_split.induct) (auto simp: Let_def)

lemma js_split_short: "length s < length sep \<Longrightarrow> js_split sep s = [s]"
proof (induction s)
  case Nil
  then show ?case by simp
next
  case (Cons c cs)
  have "\<not> prefix sep (c # cs)"
    using Cons.prems prefix_length_le by fastforce
  moreover have "js_split sep cs = [cs]"
    using Cons by simp
  ultimately show ?case by simp
qed

lemma js_split_single: "js_split sep s = [x] \<Longrightarrow> x = s"
proof (induction sep s arbitrary: x rule: js_split.induct)
  case (1 sep)
  then show ?case by simp
next
  case (2 sep c cs)
  show ?case
  proof (cases "sep \<noteq> [] \<and> prefix sep (c # cs)")
    case True
    with "2.prems" show ?thesis by (simp add: js_split_nonempty)
  next
    case False
    obtain p ps where r: "js_split sep cs = p # ps"
      using js_split_nonempty by (cases "js_split sep cs") auto
    with False "2.prems" have "ps = []" "x = c # p" by (auto simp: Let_def)
    with r "2.IH"(2)[OF False] show ?thesis by simp
  qed
qed

lemma js_split_append:
  "js_split sep (a @ b) =
     butlast (js_split sep a) @ js_split sep (last (js_split sep a) @ b)"
proof (induction sep a rule: js_split.induct)
  case (1 sep)
  show ?case by simp
next
  case (2 sep c cs)
  show ?case
  proof (cases "sep \<noteq> [] \<and> prefix sep (c # cs)")
    case True
    then have pre: "prefix sep ((c # cs) @ b)"
      using prefix_prefix by blast
    have len: "length sep \<le> length (c # cs)"
      using True prefix_length_le by blast
    have dr: "drop (length sep) ((c # cs) @ b) = drop (length sep) (c # cs) @ b"
      using len by (simp del: append_Cons)
    have "js_split sep ((c # cs) @ b) = [] # js_split sep (drop (length sep) ((c # cs) @ b))"
      using True pre by simp
    also have "\<dots> = [] # js_split sep (drop (length sep) (c # cs) @ b)"
      unfolding dr ..
    also have "\<dots> = [] # (butlast (js_split sep (drop (length sep) (c # cs)))
        @ js_split sep (last (js_split sep (drop (length sep) (c # cs))) @ b))"
      using "2.IH"(1)[OF True] by simp
    finally show ?thesis
      using True by (simp add: js_split_nonempty)
  next
    case False
    note nomatch = this
    obtain p ps where r: "js_split sep cs = p # ps"
      using js_split_nonempty by (cases "js_split sep cs") auto
    have sa: "js_split sep (c # cs) = (c # p) # ps"
      using nomatch r by simp
    show ?thesis
    proof (cases "sep \<noteq> [] \<and> prefix sep ((c # cs) @ b)")
      case True
      have "length (c # cs) < length sep"
      proof (rule ccontr)
        assume "\<not> length (c # cs) < length sep"
        then have "length sep \<le> length (c # cs)" by simp
        with True have "prefix sep (c # cs)"
          by (metis prefix_length_prefix prefix_def)
        with True nomatch show False by simp
      qed
      then have "js_split sep (c # cs) = [c # cs]"
        by (rule js_split_short)
      then show ?thesis by simp
    next
      case False
      have lhs: "js_split sep ((c # cs) @ b) =
          (c # hd (js_split sep (cs @ b))) # tl (js_split sep (cs @ b))"
        using False by (simp add: Let_def)
      have ih: "js_split sep (cs @ b) = butlast (p # ps) @ js_split sep (last (p # ps) @ b)"
        using "2.IH"(2)[OF nomatch] r by simp
      show ?thesis
      proof (cases ps)
        case Nil
        with r have "p = cs" using js_split_single by blast
        with Nil sa show ?thesis by simp
      next
        case (Cons q qs)
        with ih have "js_split sep (cs @ b) = p # (butlast (q # qs) @ js_split sep (last (q # qs) @ b))"
          by simp
        with lhs sa Cons show ?thesis by simp
      qed
    qed
  qed
qed


lemma js_split_last_idem:
  "js_split sep (last (js_split sep s)) = [last (js_split sep s)]"
proof (induction sep s rule: js_split.induct)
  case (1 sep)
  show ?case by simp
next
  case (2 sep c cs)
  show ?case
  proof (cases "sep \<noteq> [] \<and> prefix sep (c # cs)")
    case True
    with "2.IH"(1) show ?thesis by (simp add: js_split_nonempty)
  next
    case False
    obtain p ps where r: "js_split sep cs = p # ps"
      using js_split_nonempty by (cases "js_split sep cs") auto
    show ?thesis
    proof (cases ps)
      case Nil
      with r have "p = cs" using js_split_single by blast
      moreover have "js_split sep (c # cs) = (c # p) # ps"
        using False r by simp
      ultimately have "js_split sep (c # cs) = [c # cs]" using Nil by simp
      then show ?thesis by simp
    next
      case (Cons q qs)
      have "js_split sep (c # cs) = (c # p) # ps"
        using False r by simp
      with Cons r have "last (js_split sep (c # cs)) = last (js_split sep cs)" by simp
      with "2.IH"(2)[OF False] show ?thesis by simp
    qed
  qed
qed

lemma map_filter_append: "List.map_filter f (xs @ ys) = List.map_filter f xs @ List.map_filter f ys"
  by (simp add: List.map_filter_def)

lemma split_buffer_eq:
  "split_buffer buffer c =
     (butlast (js_split [LF, LF] (buffer @ c)), last (js_split [LF, LF] (buffer @ c)))"
  by (simp add: split_buffer_def Let_def js_split_nonempty)

lemma butlast_split_append:
  "butlast (js_split sep (a @ b)) =
     butlast (js_split sep a) @ butlast (js_split sep (last (js_split sep a) @ b))"
  by (subst js_split_append) (simp add: butlast_append js_split_nonempty)

lemma last_split_append:
  "last (js_split sep (a @ b)) = last (js_split sep (last (js_split sep a) @ b))"
  by (subst js_split_append) (simp add: js_split_nonempty)

lemma decode_stream_frames:
  "js_split [LF, LF] buffer = [buffer] \<Longrightarrow>
   decode_stream e buffer cs =
     List.map_filter (parse_frame e) (butlast (js_split [LF, LF] (buffer @ concat cs)))"
proof (induction cs arbitrary: buffer)
  case Nil
  then show ?case by (simp add: List.map_filter_def)
next
  case (Cons c cs)
  let ?b = "last (js_split [LF, LF] (buffer @ c))"
  have idem: "js_split [LF, LF] ?b = [?b]" by (rule js_split_last_idem)
  have "decode_stream e buffer (c # cs) =
      List.map_filter (parse_frame e) (butlast (js_split [LF, LF] (buffer @ c)))
      @ decode_stream e ?b cs"
    by (simp add: split_buffer_eq)
  also have "\<dots> = List.map_filter (parse_frame e) (butlast (js_split [LF, LF] (buffer @ c)))
      @ List.map_filter (parse_frame e) (butlast (js_split [LF, LF] (?b @ concat cs)))"
    using Cons.IH[OF idem] by simp
  also have "\<dots> = List.map_filter (parse_frame e)
      (butlast (js_split [LF, LF] ((buffer @ c) @ concat cs)))"
    by (simp only: butlast_split_append[of _ "buffer @ c"] map_filter_append)
  finally show ?case by simp
qed

lemma for_parts_append:
  "for_parts e (xs @ ys) r w =
     (case for_parts e xs r w of
        (Returned, r1, w1) \<Rightarrow> (Returned, r1, w1)
      | (_, r1, w1) \<Rightarrow> for_parts e ys r1 w1)"
proof (induction xs arbitrary: r w)
  case Nil
  show ?case by simp
next
  case (Cons x xs)
  obtain k r1 w1 where p: "process_part e x r w = (k, r1, w1)"
    by (cases "process_part e x r w") auto
  show ?case
    using Cons.IH[of r1 w1] p by (cases k) simp_all
qed

lemma for_parts_not_threw: "fst (for_parts e xs r w) \<noteq> Threw"
proof (induction xs arbitrary: r w)
  case Nil
  show ?case by simp
next
  case (Cons x xs)
  obtain k r1 w1 where p: "process_part e x r w = (k, r1, w1)"
    by (cases "process_part e x r w") auto
  show ?case using Cons.IH[of r1 w1] p by (cases k) simp_all
qed

lemma pump_frames:
  assumes "\<forall>n. \<not> token e n"
  shows "js_split [LF, LF] buffer = [buffer] \<Longrightarrow>
   pump e sid rerr n cs buffer r w =
     finish rerr (for_parts e (butlast (js_split [LF, LF] (buffer @ concat cs))) r w)"
proof (induction cs arbitrary: n buffer r w)
  case Nil
  with assms show ?case by (simp add: finish_def split: option.splits)
next
  case (Cons c cs)
  let ?b = "last (js_split [LF, LF] (buffer @ c))"
  let ?ps = "butlast (js_split [LF, LF] (buffer @ c))"
  have idem: "js_split [LF, LF] ?b = [?b]" by (rule js_split_last_idem)
  obtain k r1 w1 where fp: "for_parts e ?ps r w = (k, r1, w1)"
    by (cases "for_parts e ?ps r w") auto
  have split: "butlast (js_split [LF, LF] (buffer @ c @ concat cs)) =
      ?ps @ butlast (js_split [LF, LF] (?b @ concat cs))"
    using butlast_split_append[of "[LF, LF]" "buffer @ c" "concat cs"] by simp
  show ?case
  proof (cases k)
    case Returned
    with fp assms show ?thesis
      by (simp add: split_buffer_eq split for_parts_append finish_def)
  next
    case Normal
    with fp assms Cons.IH[OF idem, of "Suc n" r1 w1] show ?thesis
      by (simp add: split_buffer_eq split for_parts_append)
  next
    case Threw
    with fp for_parts_not_threw[of e ?ps r w] show ?thesis by simp
  qed
qed

section \<open>The monitor on a known sequence of frames\<close>

lemma getApiKey_emit [simp]: "getApiKey (emit x w) = getApiKey w"
  by (simp add: getApiKey_def emit_def)

lemma trace_emit: "trace (emit x w) = trace w @ [x]"
  by (simp add: emit_def)

lemma monitorSession_pump:
  assumes "connected e sessionId w k stream"
  shows "monitorSession e sessionId w =
     pump e sessionId (read_error stream) 0 (chunks stream) [] []
       (emit (FetchStream (sse_url e sessionId) k) w)"
  using assms
  by (auto simp: connected_def monitorSession_def Let_def split: sum.splits)

lemma monitorSession_frames:
  assumes "connected e sessionId w k stream" and "\<forall>n. \<not> token e n"
  shows "monitorSession e sessionId w =
     finish (read_error stream)
       (for_parts e (stream_frames (chunks stream)) [] 
          (emit (FetchStream (sse_url e sessionId) k) w))"
proof -
  have nil: "js_split [LF, LF] [] = [[]]" by simp
  show ?thesis
    unfolding monitorSession_pump[OF assms(1)] pump_frames[OF assms(2) nil] stream_frames_def
    by simp
qed

lemma process_part_unparsed:
  "parse_frame e p = None \<Longrightarrow> process_part e p r w = (Normal, r, w)"
  by (cases "frame_fields p") (simp add: parse_frame_def process_part_def try_body_def)

lemma is_event_parsed:
  assumes "is_event e t p"
  obtains parsed where "JSON_parse e (snd (frame_fields p)) = Some parsed"
    and "get_prop parsed ''type'' = Some (Some (JStr t))"
  using assms by (auto simp: is_event_def parse_frame_def split: option.splits)

lemma process_part_error:
  assumes "is_event e ''error'' p"
  shows "process_part e p r w = (Normal, r, w)"
proof -
  obtain ev d where ff: "frame_fields p = (ev, d)" by (cases "frame_fields p") auto
  from assms ff obtain parsed where p: "JSON_parse e d = Some parsed"
    and t: "get_prop parsed ''type'' = Some (Some (JStr ''error''))"
    by (auto elim: is_event_parsed)
  show ?thesis
    by (simp add: process_part_def ff try_body_def p t Let_def)
qed

lemma process_part_complete:
  assumes "is_event e ''complete'' p"
  shows "process_part e p r w =
     (Returned, r, if r \<noteq> [] then emit (ChatAddMessage ''assistant'' r) w else w)"
proof -
  obtain ev d where ff: "frame_fields p = (ev, d)" by (cases "frame_fields p") auto
  from assms ff obtain parsed where p: "JSON_parse e d = Some parsed"
    and t: "get_prop parsed ''type'' = Some (Some (JStr ''complete''))"
    by (auto elim: is_event_parsed)
  show ?thesis
    by (simp add: process_part_def ff try_body_def p t Let_def)
qed

lemma process_part_content:
  assumes "is_content e p m"
  shows "process_part e p r w = (Normal, r @ m, w)"
proof -
  obtain ev d where ff: "frame_fields p = (ev, d)" by (cases "frame_fields p") auto
  from assms ff obtain parsed where p: "JSON_parse e d = Some parsed"
    and t: "get_prop parsed ''type'' = Some (Some (JStr ''content''))"
    and m: "get_prop parsed ''message'' = Some (Some (JStr m))"
    by (auto simp: is_content_def parse_frame_def split: option.splits)
  show ?thesis
    by (simp add: process_part_def ff try_body_def p t m Let_def val_to_string_def)
qed

lemma process_part_other:
  assumes "\<not> is_event e ''complete'' p"
  shows "fst (process_part e p r w) = Normal \<and>
         filter is_chat_message (trace (snd (snd (process_part e p r w))))
           = filter is_chat_message (trace w)"
proof -
  obtain ev d where ff: "frame_fields p = (ev, d)" by (cases "frame_fields p") auto
  show ?thesis
  proof (cases "JSON_parse e d")
    case None
    then show ?thesis by (simp add: process_part_def ff try_body_def)
  next
    case (Some parsed)
    show ?thesis
    proof (cases "get_prop parsed ''type''")
      case None
      with Some show ?thesis by (simp add: process_part_def ff try_body_def)
    next
      case ty: (Some ty)
      from assms ff Some ty have nc: "ty \<noteq> Some (JStr ''complete'')"
        by (simp add: is_event_def parse_frame_def)
      obtain k r1 w1 where tb: "try_body e d r w = (k, r1, w1)"
        by (cases "try_body e d r w") auto
      have "k \<noteq> Returned \<and> filter is_chat_message (trace w1) = filter is_chat_message (trace w)"
        using tb Some ty nc
        by (auto simp: try_body_def Let_def emit_def split: if_splits option.splits)
      then show ?thesis
        by (cases k) (simp_all add: process_part_def ff tb)
    qed
  qed
qed

lemma for_parts_content:
  "list_all2 (is_content e) ps ms \<Longrightarrow> for_parts e ps r w = (Normal, r @ concat ms, w)"
proof (induction ps ms arbitrary: r rule: list_all2_induct)
  case Nil
  show ?case by simp
next
  case (Cons p ps m ms)
  then show ?case by (simp add: process_part_content)
qed

lemma for_parts_no_complete:
  assumes "\<forall>p \<in> set ps. \<not> is_event e ''complete'' p"
  shows "fst (for_parts e ps r w) = Normal \<and>
         filter is_chat_message (trace (snd (snd (for_parts e ps r w))))
           = filter is_chat_message (trace w)"
  using assms
proof (induction ps arbitrary: r w)
  case Nil
  show ?case by simp
next
  case (Cons p ps)
  obtain k r1 w1 where pp: "process_part e p r w = (k, r1, w1)"
    by (cases "process_part e p r w") auto
  from Cons.prems have "\<not> is_event e ''complete'' p" by simp
  from process_part_other[OF this, of r w] pp
  have k: "k = Normal" and t: "filter is_chat_message (trace w1) = filter is_chat_message (trace w)"
    by simp_all
  from Cons.prems have "\<forall>p \<in> set ps. \<not> is_event e ''complete'' p" by simp
  from Cons.IH[OF this, of r1 w1] pp k t show ?case by simp
qed

lemma for_parts_some_complete:
  assumes "\<exists>p \<in> set ps. is_event e ''complete'' p"
  shows "fst (for_parts e ps r w) = Returned"
  using assms
proof (induction ps arbitrary: r w)
  case Nil
  then show ?case by simp
next
  case (Cons p ps)
  show ?case
  proof (cases "is_event e ''complete'' p")
    case True
    then show ?thesis by (simp add: process_part_complete)
  next
    case False
    obtain k r1 w1 where pp: "process_part e p r w = (k, r1, w1)"
      by (cases "process_part e p r w") auto
    from process_part_other[OF False, of r w] pp have k: "k = Normal" by simp
    from Cons.prems False have "\<exists>p \<in> set ps. is_event e ''complete'' p" by simp
    from Cons.IH[OF this, of r1 w1] pp k show ?thesis by simp
  qed
qed

lemma for_parts_drop_unparsed:
  assumes "parse_frame e bad = None"
  shows "for_parts e (ps @ bad # qs) r w = for_parts e (ps @ qs) r w"
proof -
  obtain k r1 w1 where fp: "for_parts e ps r w = (k, r1, w1)"
    by (cases "for_parts e ps r w") auto
  have "for_parts e (bad # qs) r1 w1 = for_parts e qs r1 w1"
    by (simp add: process_part_unparsed[OF assms])
  then show ?thesis
    by (cases k) (simp_all add: for_parts_append fp)
qed

section \<open>Requests and cancellation\<close>

lemma pump_cancelled:
  assumes "token e n"
  shows "pump e sessionId rerr n cs buffer r w =
     (case stop_request e sessionId w of
        (Inl err, w1) \<Rightarrow> (Inl err, w1)
      | (Inr res, w1) \<Rightarrow> (Inl (new_Error ''User cancelled''), w1))"
  using assms by (cases cs) simp_all

lemma apiFetch_ok:
  assumes "getApiKey w = Some k"
    and "http e method (baseUrl e @ path) k payload = Inr res"
    and "ok res"
  shows "apiFetch e path method payload w =
     (Inr res, emit (Fetch method (baseUrl e @ path) k payload) w)"
  using assms by (simp add: apiFetch_def ensureApiKey_def Let_def)

lemma ensureApiKey_workspace:
  "ephemeralProjectId (snd (ensureApiKey e w)) = ephemeralProjectId w \<and>
   currentSessionId (snd (ensureApiKey e w)) = currentSessionId w"
  by (simp add: ensureApiKey_def emit_def Let_def split: option.splits)

lemma apiFetch_workspace:
  "ephemeralProjectId (snd (apiFetch e path method payload w)) = ephemeralProjectId w"
proof -
  obtain ko w1 where ek: "ensureApiKey e w = (ko, w1)"
    by (cases "ensureApiKey e w") auto
  from ensureApiKey_workspace[of e w] ek
  have w1: "ephemeralProjectId w1 = ephemeralProjectId w" by simp
  show ?thesis
  proof (cases ko)
    case None
    with ek w1 show ?thesis by (simp add: apiFetch_def)
  next
    case (Some k)
    show ?thesis
    proof (cases "http e method (baseUrl e @ path) k payload")
      case (Inl err)
      with ek Some w1 show ?thesis by (simp add: apiFetch_def Let_def emit_def)
    next
      case (Inr res)
      with ek Some w1 show ?thesis by (simp add: apiFetch_def Let_def emit_def)
    qed
  qed
qed

section \<open>Effects of a request and of the artifact loop\<close>

lemma ensureApiKey_filter:
  assumes "\<And>u. \<not> Q (OpenExternal u)" and "\<not> Q ShowInputBox"
  shows "filter Q (trace (snd (ensureApiKey e w))) = filter Q (trace w)"
  using assms by (simp add: ensureApiKey_def emit_def Let_def split: option.splits)

lemma apiFetch_filter_ok:
  assumes "apiFetch e path method payload w = (Inr res, w1)"
    and "\<And>u. \<not> Q (OpenExternal u)" and "\<not> Q ShowInputBox"
    and "\<And>u k. \<not> Q (Fetch method u k payload)"
  shows "filter Q (trace w1) = filter Q (trace w)"
proof -
  obtain ko w0 where ek: "ensureApiKey e w = (ko, w0)"
    by (cases "ensureApiKey e w") auto
  from ensureApiKey_filter[of Q e w, OF assms(2,3)] ek
  have w0: "filter Q (trace w0) = filter Q (trace w)" by simp
  show ?thesis
  proof (cases ko)
    case None
    with ek assms(1) show ?thesis by (simp add: apiFetch_def)
  next
    case (Some k)
    show ?thesis
    proof (cases "http e method (baseUrl e @ path) k payload")
      case (Inl err)
      with ek Some assms(1) show ?thesis by (simp add: apiFetch_def Let_def)
    next
      case (Inr r)
      show ?thesis
      proof (cases "ok r")
        case True
        with ek Some Inr assms(1)
        have "w1 = emit (Fetch method (baseUrl e @ path) k payload) w0"
          by (simp add: apiFetch_def Let_def)
        with w0 assms(4) show ?thesis by (simp add: emit_def)
      next
        case False
        with ek Some Inr have "\<exists>err w2. apiFetch e path method payload w = (Inl err, w2)"
          by (simp add: apiFetch_def Let_def)
        with assms(1) show ?thesis by simp
      qed
    qed
  qed
qed

lemma first_failure_append:
  "first_failure e (xs @ ys) =
     (case first_failure e xs of None \<Rightarrow> first_failure e ys | Some err \<Rightarrow> Some err)"
  by (induction xs) (simp_all split: option.splits)

lemma calls_made_append:
  "calls_made e (xs @ ys) =
     (case first_failure e xs of None \<Rightarrow> xs @ calls_made e ys | Some err \<Rightarrow> calls_made e xs)"
  by (induction xs) (simp_all split: option.splits)

lemma calls_made_all:
  "first_failure e cs = None \<Longrightarrow> calls_made e cs = cs"
  by (induction cs) (simp_all split: option.splits)

lemma no_failure_calls:
  assumes "\<forall>c \<in> set cs. fs_failure e c = None"
  shows "first_failure e cs = None \<and> calls_made e cs = cs"
  using assms by (induction cs) simp_all

lemma write_artifact_calls:
  "fst (write_artifact e (Uri folder [''output'']) a w) =
     (case first_failure e (artifact_writes folder a) of None \<Rightarrow> Inr () | Some err \<Rightarrow> Inl err) \<and>
   filter is_fs_effect (trace (snd (write_artifact e (Uri folder [''output'']) a w))) =
     filter is_fs_effect (trace w) @ calls_made e (artifact_writes folder a)"
  by (simp add: write_artifact_def artifact_writes_def fs_createDirectory_def fs_writeFile_def
        Let_def emit_def split: option.splits)

lemma for_artifacts_calls:
  "fst (for_artifacts e (Uri folder [''output'']) as w) =
     (case first_failure e (concat (map (artifact_writes folder) as)) of
        None \<Rightarrow> Inr () | Some err \<Rightarrow> Inl err) \<and>
   filter is_fs_effect (trace (snd (for_artifacts e (Uri folder [''output'']) as w))) =
     filter is_fs_effect (trace w) @ calls_made e (concat (map (artifact_writes folder) as))"
proof (induction as arbitrary: w)
  case Nil
  show ?case by simp
next
  case (Cons a as)
  let ?dir = "Uri folder [''output'']"
  obtain r w1 where wa: "write_artifact e ?dir a w = (r, w1)"
    by (cases "write_artifact e ?dir a w") auto
  from write_artifact_calls[of e folder a w] wa
  have r: "r = (case first_failure e (artifact_writes folder a) of
                  None \<Rightarrow> Inr () | Some err \<Rightarrow> Inl err)"
    and t: "filter is_fs_effect (trace w1) =
              filter is_fs_effect (trace w) @ calls_made e (artifact_writes folder a)"
    by simp_all
  show ?case
  proof (cases "first_failure e (artifact_writes folder a)")
    case None
    with r have "for_artifacts e ?dir (a # as) w = for_artifacts e ?dir as w1"
      by (simp add: wa)
    with Cons.IH[of w1] t None show ?thesis
      by (simp add: first_failure_append calls_made_append calls_made_all)
  next
    case (Some err)
    with r have "for_artifacts e ?dir (a # as) w = (Inl err, w1)"
      by (simp add: wa)
    with t Some show ?thesis
      by (simp add: first_failure_append calls_made_append)
  qed
qed

section \<open>What a cancelled run leaves behind\<close>

lemma show_nat_digit: "\<exists>d ds. show_nat n = d # ds \<and> d \<in> set ''0123456789''"
proof (induction n rule: show_nat.induct)
  case (1 n)
  show ?case
  proof (cases "n < 10")
    case True
    then have "''0123456789'' ! n \<in> set ''0123456789''"
      by (intro nth_mem) simp
    with True show ?thesis by (subst show_nat.simps) simp
  next
    case False
    with "1.IH" obtain d ds where "show_nat (n div 10) = d # ds" and "d \<in> set ''0123456789''"
      by auto
    with False show ?thesis by (subst show_nat.simps) simp
  qed
qed

lemma show_nat_not_cancelled: "show_nat n @ s \<noteq> ''User cancelled''"
proof -
  obtain d ds where "show_nat n = d # ds" and "d \<in> set ''0123456789''"
    using show_nat_digit by blast
  then show ?thesis by auto
qed

lemma apiFetch_filter_cancelled:
  assumes "apiFetch e path method payload w = (Inl err, w1)"
    and "err_message err = ''User cancelled''"
    and "\<And>u. \<not> Q (OpenExternal u)" and "\<not> Q ShowInputBox"
    and "\<And>u k. \<not> Q (Fetch method u k payload)"
  shows "filter Q (trace w1) = filter Q (trace w)"
proof -
  obtain ko w0 where ek: "ensureApiKey e w = (ko, w0)"
    by (cases "ensureApiKey e w") auto
  from ensureApiKey_filter[of Q e w, OF assms(3,4)] ek
  have w0: "filter Q (trace w0) = filter Q (trace w)" by simp
  show ?thesis
  proof (cases ko)
    case None
    with ek assms(1) have "err = new_Error ''Not authenticated''"
      by (simp add: apiFetch_def)
    with assms(2) show ?thesis by (simp add: new_Error_def)
  next
    case (Some k)
    show ?thesis
    proof (cases "http e method (baseUrl e @ path) k payload")
      case (Inl err1)
      with ek Some assms(1) have "w1 = emit (Fetch method (baseUrl e @ path) k payload) w0"
        by (simp add: apiFetch_def Let_def)
      with w0 assms(5) show ?thesis by (simp add: emit_def)
    next
      case (Inr r)
      let ?text = "case body r of None \<Rightarrow> [] | Some t \<Rightarrow> t"
      show ?thesis
      proof (cases "ok r")
        case True
        with ek Some Inr have "\<exists>res w2. apiFetch e path method payload w = (Inr res, w2)"
          by (simp add: apiFetch_def Let_def)
        with assms(1) show ?thesis by simp
      next
        case False
        with ek Some Inr assms(1)
        have "err = new_Error (''Authentication failed ('' @ show_nat (status r) @ ''): '' @ ?text)
            \<or> err = new_Error (show_nat (status r) @ '' '' @ ?text)"
          by (simp add: apiFetch_def Let_def split: if_splits)
        with assms(2) show ?thesis
          by (auto simp: new_Error_def show_nat_not_cancelled)
      qed
    qed
  qed
qed

lemma process_part_filter:
  assumes "\<And>v. \<not> Q (ProgressReport v)" and "\<And>s. \<not> Q (AppendLine s)"
    and "\<And>role s. \<not> Q (ChatAddMessage role s)"
  shows "filter Q (trace (snd (snd (process_part e p r w)))) = filter Q (trace w) \<and>
         ephemeralProjectId (snd (snd (process_part e p r w))) = ephemeralProjectId w"
proof -
  obtain ev d where ff: "frame_fields p = (ev, d)" by (cases "frame_fields p") auto
  obtain c r1 w1 where tb: "try_body e d r w = (c, r1, w1)"
    by (cases "try_body e d r w") auto
  have "filter Q (trace w1) = filter Q (trace w) \<and> ephemeralProjectId w1 = ephemeralProjectId w"
    using tb assms
    by (auto simp: try_body_def Let_def emit_def split: option.splits if_splits)
  then show ?thesis
    by (cases c) (simp_all add: process_part_def ff tb)
qed

lemma for_parts_filter:
  assumes "\<And>v. \<not> Q (ProgressReport v)" and "\<And>s. \<not> Q (AppendLine s)"
    and "\<And>role s. \<not> Q (ChatAddMessage role s)"
  shows "filter Q (trace (snd (snd (for_parts e ps r w)))) = filter Q (trace w) \<and>
         ephemeralProjectId (snd (snd (for_parts e ps r w))) = ephemeralProjectId w"
proof (induction ps arbitrary: r w)
  case Nil
  show ?case by simp
next
  case (Cons p ps)
  obtain c r1 w1 where pp: "process_part e p r w = (c, r1, w1)"
    by (cases "process_part e p r w") auto
  from process_part_filter[of Q e p r w, OF assms] pp
  have a: "filter Q (trace w1) = filter Q (trace w) \<and> ephemeralProjectId w1 = ephemeralProjectId w"
    by simp
  from Cons.IH[of r1 w1] a pp show ?case by (cases c) simp_all
qed

lemma stop_request_cancelled:
  assumes "stop_request e sessionId w = (res, w1)"
    and "\<And>err. res = Inl err \<Longrightarrow> err_message err = ''User cancelled''"
  shows "filter completion_or_alarm (trace w1) = filter completion_or_alarm (trace w) \<and>
         ephemeralProjectId w1 = ephemeralProjectId w"
proof -
  have ws: "ephemeralProjectId w1 = ephemeralProjectId w"
    using apiFetch_workspace[of e "''/api/v1/agent/stop''" "''POST''"
        "Some (JObj [(''sessionId'', JStr sessionId)])" w] assms(1)
    by (simp add: stop_request_def)
  show ?thesis
  proof (cases res)
    case (Inl err)
    with assms(1) have a: "apiFetch e ''/api/v1/agent/stop'' ''POST''
        (Some (JObj [(''sessionId'', JStr sessionId)])) w = (Inl err, w1)"
      by (simp add: stop_request_def)
    from assms(2)[OF Inl] have m: "err_message err = ''User cancelled''" .
    have "filter completion_or_alarm (trace w1) = filter completion_or_alarm (trace w)"
      by (rule apiFetch_filter_cancelled[OF a m]) simp_all
    with ws show ?thesis by simp
  next
    case (Inr r)
    with assms(1) have a: "apiFetch e ''/api/v1/agent/stop'' ''POST''
        (Some (JObj [(''sessionId'', JStr sessionId)])) w = (Inr r, w1)"
      by (simp add: stop_request_def)
    have "filter completion_or_alarm (trace w1) = filter completion_or_alarm (trace w)"
      by (rule apiFetch_filter_ok[OF a]) simp_all
    with ws show ?thesis by simp
  qed
qed

lemma pump_cancelled_quiet:
  assumes "pump e sessionId rerr n cs buffer r w = (Inl err, w1)"
    and "err_message err = ''User cancelled''"
  shows "filter completion_or_alarm (trace w1) = filter completion_or_alarm (trace w) \<and>
         ephemeralProjectId w1 = ephemeralProjectId w"
  using assms
proof (induction cs arbitrary: n buffer r w)
  case Nil
  show ?case
  proof (cases "token e n")
    case True
    obtain res w2 where sr: "stop_request e sessionId w = (res, w2)"
      by (cases "stop_request e sessionId w") auto
    with True Nil.prems(1) have "w2 = w1" and "\<And>err0. res = Inl err0 \<Longrightarrow> err0 = err"
      by (auto simp: pump_cancelled split: sum.splits)
    with sr Nil.prems(2) show ?thesis
      by (intro stop_request_cancelled[of e sessionId w res w1]) auto
  next
    case False
    with Nil.prems show ?thesis by (simp split: option.splits)
  qed
next
  case (Cons c cs)
  show ?case
  proof (cases "token e n")
    case True
    obtain res w2 where sr: "stop_request e sessionId w = (res, w2)"
      by (cases "stop_request e sessionId w") auto
    with True Cons.prems(1) have "w2 = w1" and "\<And>err0. res = Inl err0 \<Longrightarrow> err0 = err"
      by (auto simp: pump_cancelled split: sum.splits)
    with sr Cons.prems(2) show ?thesis
      by (intro stop_request_cancelled[of e sessionId w res w1]) auto
  next
    case False
    obtain parts buffer1 where sb: "split_buffer buffer c = (parts, buffer1)"
      by (cases "split_buffer buffer c") auto
    obtain k r1 w2 where fp: "for_parts e parts r w = (k, r1, w2)"
      by (cases "for_parts e parts r w") auto
    from for_parts_filter[of completion_or_alarm e parts r w] fp
    have q: "filter completion_or_alarm (trace w2) = filter completion_or_alarm (trace w) \<and>
        ephemeralProjectId w2 = ephemeralProjectId w"
      by simp
    from False sb fp Cons.prems(1)
    have "k \<noteq> Returned" and "pump e sessionId rerr (Suc n) cs buffer1 r1 w2 = (Inl err, w1)"
      by (cases k; simp)+
    from Cons.IH[OF this(2) Cons.prems(2)] q show ?thesis by simp
  qed
qed

lemma monitorSession_cancelled_quiet:
  assumes "monitorSession e sessionId w = (Inl err, w1)"
    and "err_message err = ''User cancelled''"
  shows "filter completion_or_alarm (trace w1) = filter completion_or_alarm (trace w) \<and>
         ephemeralProjectId w1 = ephemeralProjectId w"
proof (cases "getApiKey w")
  case None
  with assms show ?thesis by (simp add: monitorSession_def new_Error_def)
next
  case (Some k)
  let ?w0 = "emit (FetchStream (sse_url e sessionId) k) w"
  have w0: "filter completion_or_alarm (trace ?w0) = filter completion_or_alarm (trace w) \<and>
      ephemeralProjectId ?w0 = ephemeralProjectId w"
    by (simp add: emit_def)
  show ?thesis
  proof (cases "sse e (sse_url e sessionId) k")
    case (Inl err1)
    with Some assms(1) have "w1 = ?w0" by (simp add: monitorSession_def Let_def)
    with w0 show ?thesis by simp
  next
    case (Inr resp)
    show ?thesis
    proof (cases "200 \<le> sse_status resp \<and> sse_status resp < 300 \<and> sse_body resp \<noteq> None")
      case False
      with Some Inr assms(1) have "err = new_Error ''Failed to connect to SSE stream''"
        by (auto simp: monitorSession_def Let_def split: option.splits if_splits)
      with assms(2) show ?thesis by (simp add: new_Error_def)
    next
      case True
      then obtain stream where "sse_body resp = Some stream" by auto
      with True Some Inr assms(1)
      have "pump e sessionId (read_error stream) 0 (chunks stream) [] [] ?w0 = (Inl err, w1)"
        by (simp add: monitorSession_def Let_def)
      from pump_cancelled_quiet[OF this assms(2)] w0 show ?thesis by simp
    qed
  qed
qed

lemma getEphemeralProject_quiet:
  assumes "getEphemeralProject e w = (Inr projectId, w1)"
  shows "filter completion_or_alarm (trace w1) = filter completion_or_alarm (trace w)"
proof (cases "case ephemeralProjectId w of None \<Rightarrow> None
                | Some stored \<Rightarrow> if stored = [] then None else Some stored")
  case (Some p)
  with assms show ?thesis by (simp add: getEphemeralProject_def)
next
  case None
  let ?payload = "Some (JObj [(''name'', JStr ''VSCode Session'')])"
  obtain res w2 where af: "apiFetch e ''/api/v1/projects/ephemeral'' ''POST'' ?payload w = (res, w2)"
    by (cases "apiFetch e ''/api/v1/projects/ephemeral'' ''POST'' ?payload w") auto
  show ?thesis
  proof (cases res)
    case (Inl err)
    with None af assms show ?thesis by (simp add: getEphemeralProject_def)
  next
    case (Inr r)
    with af have ok: "apiFetch e ''/api/v1/projects/ephemeral'' ''POST'' ?payload w = (Inr r, w2)"
      by simp
    have q: "filter completion_or_alarm (trace w2) = filter completion_or_alarm (trace w)"
      by (rule apiFetch_filter_ok[OF ok]) simp_all
    from None ok assms have "trace w1 = trace w2"
      by (auto simp: getEphemeralProject_def split: sum.splits)
    with q show ?thesis by simp
  qed
qed

lemma uploadWorkspaceFiles_quiet:
  assumes "uploadWorkspaceFiles e projectId w = (Inr n, w1)"
  shows "filter completion_or_alarm (trace w1) = filter completion_or_alarm (trace w)"
proof (cases "rfx_files e = []")
  case True
  with assms show ?thesis by (simp add: uploadWorkspaceFiles_def)
next
  case False
  let ?path = "''/api/v1/projects/'' @ projectId @ ''/files/upload-batch''"
  let ?payload = "Some (JObj [(''files'', JArr (map file_json (rfx_files e)))])"
  obtain res w2 where af: "apiFetch e ?path ''POST'' ?payload w = (res, w2)"
    by (cases "apiFetch e ?path ''POST'' ?payload w") auto
  show ?thesis
  proof (cases res)
    case (Inl err)
    with False af assms show ?thesis by (simp add: uploadWorkspaceFiles_def)
  next
    case (Inr r)
    with af have ok: "apiFetch e ?path ''POST'' ?payload w = (Inr r, w2)" by simp
    have q: "filter completion_or_alarm (trace w2) = filter completion_or_alarm (trace w)"
      by (rule apiFetch_filter_ok[OF ok]) simp_all
    from False ok assms have "w1 = w2"
      by (auto simp: uploadWorkspaceFiles_def split: sum.splits)
    with q show ?thesis by simp
  qed
qed

lemma session_dispatch_quiet:
  assumes "session_dispatch e message computeConfig w = (Inr (projectId, sessionId), w1)"
  shows "filter completion_or_alarm (trace w1) = filter completion_or_alarm (trace w)"
proof -
  let ?wa = "emit (ProgressReport (Some (JStr ''Creating project...''))) w"
  obtain ra wb where g: "getEphemeralProject e ?wa = (ra, wb)"
    by (cases "getEphemeralProject e ?wa") auto
  show ?thesis
  proof (cases ra)
    case (Inl err)
    with g assms show ?thesis by (simp add: session_dispatch_def Let_def)
  next
    case (Inr pid)
    with g have g': "getEphemeralProject e ?wa = (Inr pid, wb)" by simp
    from getEphemeralProject_quiet[OF g']
    have qb: "filter completion_or_alarm (trace wb) = filter completion_or_alarm (trace w)"
      by (simp add: emit_def)
    let ?wc = "emit (ProgressReport (Some (JStr ''Uploading workspace files...''))) wb"
    obtain ru wd where u: "uploadWorkspaceFiles e pid ?wc = (ru, wd)"
      by (cases "uploadWorkspaceFiles e pid ?wc") auto
    show ?thesis
    proof (cases ru)
      case (Inl err)
      with g' u assms show ?thesis by (simp add: session_dispatch_def Let_def)
    next
      case (Inr n)
      with u have u': "uploadWorkspaceFiles e pid ?wc = (Inr n, wd)" by simp
      from uploadWorkspaceFiles_quiet[OF u'] qb
      have qd: "filter completion_or_alarm (trace wd) = filter completion_or_alarm (trace w)"
        by (simp add: emit_def)
      let ?wf = "emit (ProgressReport (Some (JStr (''Starting '' @ computeConfig @ '' mode...''))))
                   (emit (AppendLine (''Uploaded '' @ show_nat n @ '' workspace file(s)'')) wd)"
      let ?payload = "Some (JObj [(''projectId'', JStr pid), (''message'', JStr message),
                                  (''computeConfig'', JStr computeConfig)])"
      obtain rd wg where d: "apiFetch e ''/api/v1/agent/dispatch'' ''POST'' ?payload ?wf = (rd, wg)"
        by (cases "apiFetch e ''/api/v1/agent/dispatch'' ''POST'' ?payload ?wf") auto
      show ?thesis
      proof (cases rd)
        case (Inl err)
        with g' u' d assms show ?thesis by (simp add: session_dispatch_def Let_def)
      next
        case (Inr res)
        with d have d': "apiFetch e ''/api/v1/agent/dispatch'' ''POST'' ?payload ?wf = (Inr res, wg)"
          by simp
        have "filter completion_or_alarm (trace wg) = filter completion_or_alarm (trace ?wf)"
          by (rule apiFetch_filter_ok[OF d']) simp_all
        with qd have qg: "filter completion_or_alarm (trace wg) = filter completion_or_alarm (trace w)"
          by (simp add: emit_def)
        from g' u' d' assms
        have "\<exists>sid. trace w1 = trace wg @ [ChatSetSession sid, AppendLine (''Session ID: '' @ sid)]"
          by (auto simp: session_dispatch_def Let_def emit_def split: sum.splits option.splits if_splits)
        with qg show ?thesis by auto
      qed
    qed
  qed
qed

section \<open>The claims\<close>

text \<open>
  C1. An Error event does not end the monitor. The \<^verbatim>\<open>throw\<close> of the error branch is
  inside the \<^verbatim>\<open>try\<close> whose handler ignores every exception, so the loop goes on: on a
  stream that carries an Error event, then a Content event, then Complete, the monitor
  applies the later Content event, forwards its text and returns as for a completed
  session.
\<close>

theorem error_event_is_swallowed:
  "monitorSession (sample_env error_example) ''s1'' sample_world =
     (Inr AtComplete,
      sample_world\<lparr>trace := [FetchStream sample_sse_url ''rfx_key'',
                              ChatAddMessage ''assistant'' ''late'']\<rparr>)"
  by code_simp

text \<open>
  C2, as stated, fails: on a stream that ends after one Content event, with no Complete,
  the monitor returns normally; it raises no failure.
\<close>

theorem end_of_stream_counterexample:
  "monitorSession (sample_env truncated_example) ''s1'' sample_world =
     (Inr AtEndOfStream, sample_world\<lparr>trace := [FetchStream sample_sse_url ''rfx_key'']\<rparr>) \<and>
   fst (monitorSession (sample_env truncated_example) ''s1'' sample_world)
     \<noteq> Inl (new_Error ''stream closed unexpectedly'')"
proof -
  have "monitorSession (sample_env truncated_example) ''s1'' sample_world =
     (Inr AtEndOfStream, sample_world\<lparr>trace := [FetchStream sample_sse_url ''rfx_key'']\<rparr>)"
    by code_simp
  then show ?thesis by simp
qed

text \<open>
  C2, amended. When the stream ends before a Complete or an Error event has been decoded
  (the monitor having connected, nothing cancelled, no read rejected), the monitor
  returns normally, as it does after Complete, and forwards nothing to the chat: the
  accumulated response is dropped.
\<close>

theorem end_of_stream_returns_normally:
  assumes "connected e sessionId w k stream"
    and "\<forall>n. \<not> token e n"
    and "read_error stream = None"
    and "\<forall>p \<in> set (stream_frames (chunks stream)).
           \<not> is_event e ''complete'' p \<and> \<not> is_event e ''error'' p"
  shows "fst (monitorSession e sessionId w) = Inr AtEndOfStream \<and>
         filter is_chat_message (trace (snd (monitorSession e sessionId w)))
           = filter is_chat_message (trace w)"
proof -
  let ?w1 = "emit (FetchStream (sse_url e sessionId) k) w"
  obtain c r1 w2 where fp: "for_parts e (stream_frames (chunks stream)) [] ?w1 = (c, r1, w2)"
    by (cases "for_parts e (stream_frames (chunks stream)) [] ?w1") auto
  from assms(4) have nc: "\<forall>p \<in> set (stream_frames (chunks stream)). \<not> is_event e ''complete'' p"
    by simp
  from for_parts_no_complete[OF nc, of "[]" ?w1] fp
  have c: "c = Normal"
    and t: "filter is_chat_message (trace w2) = filter is_chat_message (trace ?w1)"
    by simp_all
  have "monitorSession e sessionId w = (Inr AtEndOfStream, w2)"
    by (simp add: monitorSession_frames[OF assms(1,2)] fp c finish_def assms(3))
  with t show ?thesis by (simp add: emit_def)
qed

theorem end_of_stream_returns_normally_witness:
  "connected (sample_env truncated_example) ''s1'' sample_world ''rfx_key''
     \<lparr> chunks = truncated_example, read_error = None \<rparr> \<and>
   (\<forall>n. \<not> token (sample_env truncated_example) n) \<and>
   stream_frames truncated_example = [hello_frame] \<and>
   \<not> is_event (sample_env truncated_example) ''complete'' hello_frame \<and>
   \<not> is_event (sample_env truncated_example) ''error'' hello_frame \<and>
   fst (monitorSession (sample_env truncated_example) ''s1'' sample_world) = Inr AtEndOfStream \<and>
   filter is_chat_message
     (trace (snd (monitorSession (sample_env truncated_example) ''s1'' sample_world))) = []"
proof -
  let ?s = "\<lparr> chunks = truncated_example, read_error = None \<rparr>"
  have h1: "connected (sample_env truncated_example) ''s1'' sample_world ''rfx_key'' ?s"
    by code_simp
  have h2: "\<forall>n. \<not> token (sample_env truncated_example) n"
    by (simp add: sample_env_def)
  have fr: "stream_frames truncated_example = [hello_frame]"
    by code_simp
  have nc: "\<not> is_event (sample_env truncated_example) ''complete'' hello_frame"
    by code_simp
  have ne: "\<not> is_event (sample_env truncated_example) ''error'' hello_frame"
    by code_simp
  have h4: "\<forall>p \<in> set (stream_frames (chunks ?s)).
      \<not> is_event (sample_env truncated_example) ''complete'' p \<and>
      \<not> is_event (sample_env truncated_example) ''error'' p"
    using fr nc ne by simp
  have t0: "filter is_chat_message (trace sample_world) = []"
    by (simp add: sample_world_def)
  from end_of_stream_returns_normally[OF h1 h2 _ h4] h1 h2 fr nc ne t0
  show ?thesis by simp
qed

text \<open>
  C3, as stated, fails for a Content event with empty text: at Complete the sink receives
  no message, not one.
\<close>

theorem empty_content_counterexample:
  "monitorSession (sample_env empty_content_example) ''s1'' sample_world =
     (Inr AtComplete, sample_world\<lparr>trace := [FetchStream sample_sse_url ''rfx_key'']\<rparr>) \<and>
   length (filter is_chat_message
     (trace (snd (monitorSession (sample_env empty_content_example) ''s1'' sample_world)))) \<noteq> 1"
proof -
  have "monitorSession (sample_env empty_content_example) ''s1'' sample_world =
     (Inr AtComplete, sample_world\<lparr>trace := [FetchStream sample_sse_url ''rfx_key'']\<rparr>)"
    by code_simp
  then show ?thesis by simp
qed

text \<open>
  C3, amended. Content events that carry strings, followed by Complete: each text is
  appended to the accumulated response, nothing is forwarded while they arrive, and at
  Complete the monitor forwards the whole text as one message when that text is not
  empty, and nothing when it is empty. The monitor adds no other effect after opening
  the stream.
\<close>

theorem content_flushed_once_at_complete:
  assumes "connected e sessionId w k stream"
    and "\<forall>n. \<not> token e n"
    and "stream_frames (chunks stream) = ps @ c # qs"
    and "list_all2 (is_content e) ps ms"
    and "is_event e ''complete'' c"
  shows "monitorSession e sessionId w =
     (Inr AtComplete,
      if concat ms \<noteq> []
      then emit (ChatAddMessage ''assistant'' (concat ms))
             (emit (FetchStream (sse_url e sessionId) k) w)
      else emit (FetchStream (sse_url e sessionId) k) w)"
proof -
  let ?w1 = "emit (FetchStream (sse_url e sessionId) k) w"
  have a: "for_parts e ps [] ?w1 = (Normal, concat ms, ?w1)"
    using for_parts_content[OF assms(4), of "[]" ?w1] by simp
  have b: "for_parts e (c # qs) (concat ms) ?w1 =
      (Returned, concat ms,
       if concat ms \<noteq> [] then emit (ChatAddMessage ''assistant'' (concat ms)) ?w1 else ?w1)"
    by (subst for_parts.simps, subst process_part_complete[OF assms(5), of "concat ms" ?w1]) simp
  have "for_parts e (ps @ c # qs) [] ?w1 =
      (Returned, concat ms,
       if concat ms \<noteq> [] then emit (ChatAddMessage ''assistant'' (concat ms)) ?w1 else ?w1)"
    unfolding for_parts_append a using b by simp
  then show ?thesis
    by (simp add: monitorSession_frames[OF assms(1,2)] assms(3) finish_def)
qed

theorem content_flushed_once_at_complete_witness:
  "connected (sample_env hello_example) ''s1'' sample_world ''rfx_key''
     \<lparr> chunks = hello_example, read_error = None \<rparr> \<and>
   (\<forall>n. \<not> token (sample_env hello_example) n) \<and>
   stream_frames hello_example = [hello_frame, world_frame] @ complete_frame # [] \<and>
   list_all2 (is_content (sample_env hello_example))
     [hello_frame, world_frame] [''Hello, '', ''world!''] \<and>
   is_event (sample_env hello_example) ''complete'' complete_frame \<and>
   monitorSession (sample_env hello_example) ''s1'' sample_world =
     (Inr AtComplete,
      sample_world\<lparr>trace := [FetchStream sample_sse_url ''rfx_key'',
                              ChatAddMessage ''assistant'' ''Hello, world!'']\<rparr>)"
proof -
  let ?s = "\<lparr> chunks = hello_example, read_error = None \<rparr>"
  have h1: "connected (sample_env hello_example) ''s1'' sample_world ''rfx_key'' ?s"
    by code_simp
  have h2: "\<forall>n. \<not> token (sample_env hello_example) n"
    by (simp add: sample_env_def)
  have h3: "stream_frames (chunks ?s) = [hello_frame, world_frame] @ complete_frame # []"
    by code_simp
  have c1: "is_content (sample_env hello_example) hello_frame ''Hello, ''"
    by code_simp
  have c2: "is_content (sample_env hello_example) world_frame ''world!''"
    by code_simp
  have h4: "list_all2 (is_content (sample_env hello_example))
     [hello_frame, world_frame] [''Hello, '', ''world!'']"
    using c1 c2 by simp
  have h5: "is_event (sample_env hello_example) ''complete'' complete_frame"
    by code_simp
  have u: "sse_url (sample_env hello_example) ''s1'' = sample_sse_url"
    by code_simp
  from content_flushed_once_at_complete[OF h1 h2 h3 h4 h5] h1 h2 h3 h4 h5
  show ?thesis by (simp add: u emit_def sample_world_def)
qed

text \<open>
  C4. However the text of a stream is cut into reads, the decoder yields the same events
  in the same order as for the whole text in one read; and the read loop, when nothing
  is cancelled, ends in the same way with the same effects.
\<close>

theorem decoder_chunking_invariant:
  "decode_stream e [] cs = decode_stream e [] [concat cs] \<and>
   ((\<forall>n. \<not> token e n) \<longrightarrow>
      pump e sessionId rerr 0 cs [] r w = pump e sessionId rerr 0 [concat cs] [] r w)"
proof (intro conjI impI)
  have nil: "js_split [LF, LF] [] = [[]]" by simp
  show "decode_stream e [] cs = decode_stream e [] [concat cs]"
    by (simp only: decode_stream_frames[OF nil]) simp
  assume nc: "\<forall>n. \<not> token e n"
  show "pump e sessionId rerr 0 cs [] r w = pump e sessionId rerr 0 [concat cs] [] r w"
    by (simp only: pump_frames[OF nc nil]) simp
qed

theorem decoder_chunking_invariant_witness:
  "(\<forall>n. \<not> token (sample_env []) n) \<and>
   decode_stream (sample_env []) [] [concat chunked_example] =
     [JObj [(''type'', JStr ''content''), (''message'', JStr ''Hello, '')],
      JObj [(''type'', JStr ''complete'')]] \<and>
   pump (sample_env []) ''s1'' None 0 chunked_example [] [] sample_world =
     pump (sample_env []) ''s1'' None 0 [concat chunked_example] [] [] sample_world"
proof -
  have h: "\<forall>n. \<not> token (sample_env []) n"
    by (simp add: sample_env_def)
  have v: "decode_stream (sample_env []) [] chunked_example =
     [JObj [(''type'', JStr ''content''), (''message'', JStr ''Hello, '')],
      JObj [(''type'', JStr ''complete'')]]"
    by code_simp
  from decoder_chunking_invariant[of "sample_env []" chunked_example "''s1''" None "[]" sample_world]
    h v show ?thesis by metis
qed

text \<open>
  C5. With the stream opened and the token signalled at the first test, the monitor sends
  one stop request for the session and handles no event, whatever the stream holds and
  however the stop request ends: after the request for the stream, the stop request is
  its only request, and it reports no progress, writes no line and forwards no message.
  It ends with \<^verbatim>\<open>User cancelled\<close> only when the stop request succeeds. The request is
  awaited outside any handler, so when the \<^verbatim>\<open>fetch\<close> rejects or the answer is not a 2xx,
  the monitor ends with the error of the request, which is not \<^verbatim>\<open>User cancelled\<close> for
  any answer of the server; \<open>startAISession\<close> then reports a failed session.
\<close>

theorem stop_failure_replaces_cancellation:
  assumes "connected e sessionId w k stream"
    and "token e 0"
  shows "filter request_or_event (trace (snd (monitorSession e sessionId w))) =
           filter request_or_event (trace w) @
             [FetchStream (sse_url e sessionId) k,
              Fetch ''POST'' (baseUrl e @ ''/api/v1/agent/stop'') k
                (Some (JObj [(''sessionId'', JStr sessionId)]))] \<and>
         (case http e ''POST'' (baseUrl e @ ''/api/v1/agent/stop'') k
                 (Some (JObj [(''sessionId'', JStr sessionId)])) of
            Inl err \<Rightarrow> fst (monitorSession e sessionId w) = Inl err
          | Inr res \<Rightarrow>
              if ok res then
                fst (monitorSession e sessionId w) = Inl (new_Error ''User cancelled'')
              else
                fst (monitorSession e sessionId w) =
                  Inl (new_Error
                    (if (status res = 401 \<or> status res = 403) \<and>
                        auth_failure_text (case body res of None \<Rightarrow> [] | Some t \<Rightarrow> t)
                     then ''Authentication failed ('' @ show_nat (status res) @ ''): ''
                          @ (case body res of None \<Rightarrow> [] | Some t \<Rightarrow> t)
                     else show_nat (status res) @ '' ''
                          @ (case body res of None \<Rightarrow> [] | Some t \<Rightarrow> t))) \<and>
                fst (monitorSession e sessionId w) \<noteq> Inl (new_Error ''User cancelled''))"
proof -
  let ?w1 = "emit (FetchStream (sse_url e sessionId) k) w"
  let ?payload = "Some (JObj [(''sessionId'', JStr sessionId)])"
  let ?url = "baseUrl e @ ''/api/v1/agent/stop''"
  from assms(1) have key: "ensureApiKey e ?w1 = (Some k, ?w1)"
    by (simp add: connected_def ensureApiKey_def)
  have m: "monitorSession e sessionId w =
      (case stop_request e sessionId ?w1 of
         (Inl err, w2) \<Rightarrow> (Inl err, w2)
       | (Inr res, w2) \<Rightarrow> (Inl (new_Error ''User cancelled''), w2))"
    by (simp only: monitorSession_pump[OF assms(1)] pump_cancelled[OF assms(2)])
  show ?thesis
  proof (cases "http e ''POST'' ?url k ?payload")
    case (Inl err)
    then have "stop_request e sessionId ?w1 = (Inl err, emit (Fetch ''POST'' ?url k ?payload) ?w1)"
      by (simp add: stop_request_def apiFetch_def key Let_def)
    with Inl show ?thesis by (simp add: m emit_def)
  next
    case (Inr res)
    show ?thesis
    proof (cases "ok res")
      case True
      with Inr
      have "stop_request e sessionId ?w1 = (Inr res, emit (Fetch ''POST'' ?url k ?payload) ?w1)"
        by (simp add: stop_request_def apiFetch_def key Let_def)
      with Inr True show ?thesis by (simp add: m emit_def)
    next
      case False
      let ?text = "case body res of None \<Rightarrow> [] | Some t \<Rightarrow> t"
      let ?msg = "if (status res = 401 \<or> status res = 403) \<and> auth_failure_text ?text
                  then ''Authentication failed ('' @ show_nat (status res) @ ''): '' @ ?text
                  else show_nat (status res) @ '' '' @ ?text"
      have sr: "fst (stop_request e sessionId ?w1) = Inl (new_Error ?msg)"
        using Inr False by (simp add: stop_request_def apiFetch_def key Let_def)
      have tr: "filter request_or_event (trace (snd (stop_request e sessionId ?w1))) =
                  filter request_or_event (trace ?w1) @ [Fetch ''POST'' ?url k ?payload]"
        using Inr False by (simp add: stop_request_def apiFetch_def key Let_def trace_emit)
      have ne: "?msg \<noteq> ''User cancelled''"
        by (simp add: show_nat_not_cancelled)
      obtain w2 where st: "stop_request e sessionId ?w1 = (Inl (new_Error ?msg), w2)"
        using sr by (cases "stop_request e sessionId ?w1") auto
      with tr have tr2: "filter request_or_event (trace w2) =
          filter request_or_event (trace ?w1) @ [Fetch ''POST'' ?url k ?payload]"
        by simp
      have r: "monitorSession e sessionId w = (Inl (new_Error ?msg), w2)"
        by (simp add: m st)
      have t: "filter request_or_event (trace (snd (monitorSession e sessionId w))) =
           filter request_or_event (trace w) @
             [FetchStream (sse_url e sessionId) k, Fetch ''POST'' ?url k ?payload]"
        by (simp add: r tr2 trace_emit)
      have v: "fst (monitorSession e sessionId w) = Inl (new_Error ?msg)"
        by (simp add: r)
      have n: "fst (monitorSession e sessionId w) \<noteq> Inl (new_Error ''User cancelled'')"
        unfolding v using ne by (simp add: new_Error_def)
      from t v n show ?thesis
        by (simp only: Inr sum.case False if_False) simp
    qed
  qed
qed

theorem stop_failure_replaces_cancellation_witness:
  "connected (stop_failing_env hello_example) ''s1'' sample_world ''rfx_key''
     \<lparr> chunks = hello_example, read_error = None \<rparr> \<and>
   token (stop_failing_env hello_example) 0 \<and>
   \<not> ok \<lparr> status = 500, body = Some ''stop failed'' \<rparr> \<and>
   fst (monitorSession (stop_failing_env hello_example) ''s1'' sample_world)
     \<noteq> Inl (new_Error ''User cancelled'') \<and>
   monitorSession (stop_failing_env hello_example) ''s1'' sample_world =
     (Inl (new_Error ''500 stop failed''),
      sample_world\<lparr>trace :=
        [FetchStream sample_sse_url ''rfx_key'',
         Fetch ''POST'' sample_stop_url ''rfx_key'' (Some (JObj [(''sessionId'', JStr ''s1'')])),
         ShowErrorMessage ''Reflexible API Error (500): stop failed'']\<rparr>) \<and>
   filter completion_or_alarm
     (trace (startAISession (stop_failing_env hello_example) sample_world)) =
     [ShowErrorMessage ''Reflexible API Error (500): stop failed'',
      ShowErrorMessage ''Session failed: 500 stop failed''] \<and>
   connected (cancelled_env hello_example) ''s1'' sample_world ''rfx_key''
     \<lparr> chunks = hello_example, read_error = None \<rparr> \<and>
   token (cancelled_env hello_example) 0 \<and>
   ok \<lparr> status = 200, body = Some ''{}'' \<rparr> \<and>
   monitorSession (cancelled_env hello_example) ''s1'' sample_world =
     (Inl (new_Error ''User cancelled''),
      sample_world\<lparr>trace :=
        [FetchStream sample_sse_url ''rfx_key'',
         Fetch ''POST'' sample_stop_url ''rfx_key'' (Some (JObj [(''sessionId'', JStr ''s1'')]))]\<rparr>)"
proof -
  let ?s = "\<lparr> chunks = hello_example, read_error = None \<rparr>"
  let ?bad = "\<lparr> status = 500, body = Some ''stop failed'' \<rparr>"
  let ?good = "\<lparr> status = 200, body = Some ''{}'' \<rparr>"
  let ?f = "stop_failing_env hello_example"
  let ?c = "cancelled_env hello_example"
  have f1: "connected ?f ''s1'' sample_world ''rfx_key'' ?s" by code_simp
  have f2: "token ?f 0" by (simp add: stop_failing_env_def cancelled_env_def)
  have f3: "http ?f ''POST'' (baseUrl ?f @ ''/api/v1/agent/stop'') ''rfx_key''
      (Some (JObj [(''sessionId'', JStr ''s1'')])) = Inr ?bad"
    by code_simp
  have f4: "\<not> ok ?bad" by (simp add: ok_def)
  have c1: "connected ?c ''s1'' sample_world ''rfx_key'' ?s" by code_simp
  have c2: "token ?c 0" by (simp add: cancelled_env_def)
  have c3: "http ?c ''POST'' (baseUrl ?c @ ''/api/v1/agent/stop'') ''rfx_key''
      (Some (JObj [(''sessionId'', JStr ''s1'')])) = Inr ?good"
    by (simp add: cancelled_env_def sample_env_def)
  have c4: "ok ?good" by (simp add: ok_def)
  note failed = stop_failure_replaces_cancellation[OF f1 f2, THEN conjunct2,
      unfolded f3 sum.case if_not_P[OF f4]]
  from failed
  have lost: "fst (monitorSession ?f ''s1'' sample_world) \<noteq> Inl (new_Error ''User cancelled'')"
    by (rule conjunct2)
  have mf: "monitorSession ?f ''s1'' sample_world =
     (Inl (new_Error ''500 stop failed''),
      sample_world\<lparr>trace :=
        [FetchStream sample_sse_url ''rfx_key'',
         Fetch ''POST'' sample_stop_url ''rfx_key'' (Some (JObj [(''sessionId'', JStr ''s1'')])),
         ShowErrorMessage ''Reflexible API Error (500): stop failed'']\<rparr>)"
    by code_simp
  have run: "filter completion_or_alarm (trace (startAISession ?f sample_world)) =
     [ShowErrorMessage ''Reflexible API Error (500): stop failed'',
      ShowErrorMessage ''Session failed: 500 stop failed'']"
    by code_simp
  have mc: "monitorSession ?c ''s1'' sample_world =
     (Inl (new_Error ''User cancelled''),
      sample_world\<lparr>trace :=
        [FetchStream sample_sse_url ''rfx_key'',
         Fetch ''POST'' sample_stop_url ''rfx_key'' (Some (JObj [(''sessionId'', JStr ''s1'')]))]\<rparr>)"
    by code_simp
  from f1 f2 f4 lost mf run c1 c2 c4 mc show ?thesis by blast
qed

text \<open>
  C6, as stated, fails on the binary part: no extension is consulted. An artifact whose
  path ends in \<^verbatim>\<open>.bin\<close>, an extension of the binary list, is written exactly as a text
  artifact with the same content is, as the UTF-8 encoding of its content string.
\<close>

theorem binary_artifact_counterexample:
  "isBinary (artifact_path binary_artifact) \<and>
   \<not> isBinary (artifact_path text_artifact) \<and>
   fst (downloadArtifacts (artifacts_env [binary_artifact, text_artifact]) ''s1'' sample_world) = Inr 2 \<and>
   filter is_fs_effect
     (trace (snd (downloadArtifacts (artifacts_env [binary_artifact, text_artifact]) ''s1''
                    sample_world))) =
     [CreateDirectory (Uri ''file:///ws'' [''output'']),
      CreateDirectory (Uri ''file:///ws'' [''output'', ''b.bin'', ''..'']),
      WriteFile (Uri ''file:///ws'' [''output'', ''b.bin'']) (Buffer_from_utf8 ''AAEC''),
      CreateDirectory (Uri ''file:///ws'' [''output'', ''b.txt'', ''..'']),
      WriteFile (Uri ''file:///ws'' [''output'', ''b.txt'']) (Buffer_from_utf8 ''AAEC'')]"
proof -
  have a: "isBinary (artifact_path binary_artifact)"
    by code_simp
  have b: "\<not> isBinary (artifact_path text_artifact)"
    by code_simp
  have "fst (downloadArtifacts (artifacts_env [binary_artifact, text_artifact]) ''s1'' sample_world)
      = Inr (length [binary_artifact, text_artifact])"
    by code_simp
  then have c: "fst (downloadArtifacts (artifacts_env [binary_artifact, text_artifact]) ''s1''
      sample_world) = Inr 2"
    by simp
  have d: "filter is_fs_effect
     (trace (snd (downloadArtifacts (artifacts_env [binary_artifact, text_artifact]) ''s1''
                    sample_world))) =
     [CreateDirectory (Uri ''file:///ws'' [''output'']),
      CreateDirectory (Uri ''file:///ws'' [''output'', ''b.bin'', ''..'']),
      WriteFile (Uri ''file:///ws'' [''output'', ''b.bin'']) (Buffer_from_utf8 ''AAEC''),
      CreateDirectory (Uri ''file:///ws'' [''output'', ''b.txt'', ''..'']),
      WriteFile (Uri ''file:///ws'' [''output'', ''b.txt'']) (Buffer_from_utf8 ''AAEC'')]"
    by code_simp
  from a b c d show ?thesis by blast
qed

text \<open>
  C6, amended. With a workspace folder open and the artifact list fetched: when the list
  is absent or empty, the result is 0 and there is no file system call. Otherwise the
  download sets out to create the \<^verbatim>\<open>output\<close> directory and then, for each artifact in
  order, to create the directory of its target and to write its content as UTF-8 text
  at its path under \<^verbatim>\<open>output\<close>, a leading \<^verbatim>\<open>output/\<close> removed, whatever its
  extension. It makes these calls in order up to the first one that rejects. When none
  rejects, all of them are made and the result is the number of artifacts. When one
  rejects, the download rejects with the error of that call and makes no later call:
  the artifacts after it are not written.
\<close>

theorem download_writes_every_artifact_as_text:
  assumes "workspaceFolders e = folder # others"
    and "apiFetch e (''/api/v1/sessions/'' @ sessionId @ ''/artifacts'') ''GET'' None w = (Inr res, w1)"
    and "read_artifacts e res = Inr arts"
  shows "(arts = None \<or> arts = Some [] \<longrightarrow>
            fst (downloadArtifacts e sessionId w) = Inr 0 \<and>
            filter is_fs_effect (trace (snd (downloadArtifacts e sessionId w)))
              = filter is_fs_effect (trace w)) \<and>
         (\<forall>as. arts = Some as \<and> as \<noteq> [] \<longrightarrow>
            fst (downloadArtifacts e sessionId w) =
              (case first_failure e (planned_calls folder as) of
                 None \<Rightarrow> Inr (length as)
               | Some err \<Rightarrow> Inl err) \<and>
            filter is_fs_effect (trace (snd (downloadArtifacts e sessionId w)))
              = filter is_fs_effect (trace w) @ calls_made e (planned_calls folder as) \<and>
            ((\<forall>c \<in> set (planned_calls folder as). fs_failure e c = None) \<longrightarrow>
               fst (downloadArtifacts e sessionId w) = Inr (length as) \<and>
               filter is_fs_effect (trace (snd (downloadArtifacts e sessionId w)))
                 = filter is_fs_effect (trace w)
                   @ CreateDirectory (Uri folder [''output''])
                   # concat (map (artifact_writes folder) as)))"
proof -
  have fs: "filter is_fs_effect (trace w1) = filter is_fs_effect (trace w)"
    by (rule apiFetch_filter_ok[OF assms(2)]) simp_all
  have empty: "fst (downloadArtifacts e sessionId w) = Inr 0 \<and>
      filter is_fs_effect (trace (snd (downloadArtifacts e sessionId w)))
        = filter is_fs_effect (trace w)"
    if "arts = None \<or> arts = Some []"
  proof -
    from that have "downloadArtifacts e sessionId w =
        (Inr 0, emit (AppendLine ''No artifacts to download'') w1)"
    proof
      assume "arts = None"
      with assms show ?thesis by (simp add: downloadArtifacts_def)
    next
      assume "arts = Some []"
      with assms show ?thesis by (simp add: downloadArtifacts_def)
    qed
    then show ?thesis by (simp add: emit_def fs)
  qed
  have full: "fst (downloadArtifacts e sessionId w) =
        (case first_failure e (planned_calls folder as) of
           None \<Rightarrow> Inr (length as)
         | Some err \<Rightarrow> Inl err) \<and>
      filter is_fs_effect (trace (snd (downloadArtifacts e sessionId w)))
        = filter is_fs_effect (trace w) @ calls_made e (planned_calls folder as)"
    if a: "arts = Some as \<and> as \<noteq> []" for as
  proof -
    let ?dir = "Uri folder [''output'']"
    let ?w2 = "emit (CreateDirectory ?dir) w1"
    let ?writes = "concat (map (artifact_writes folder) as)"
    have d: "downloadArtifacts e sessionId w =
        (case fs_createDirectory e ?dir w1 of
           (Inl err, w2) \<Rightarrow> (Inl err, w2)
         | (Inr u, w2) \<Rightarrow>
             (case for_artifacts e ?dir as w2 of
                (Inl err, w3) \<Rightarrow> (Inl err, w3)
              | (Inr v, w3) \<Rightarrow>
                  (Inr (length as),
                   emit (ShowInformationMessage (''Downloaded '' @ show_nat (length as)
                           @ '' artifact(s) to output/'')) w3)))"
      using assms a by (simp add: downloadArtifacts_def Let_def)
    show ?thesis
    proof (cases "createDirectory e ?dir")
      case (Some err)
      then have "downloadArtifacts e sessionId w = (Inl err, ?w2)"
        by (simp add: d fs_createDirectory_def)
      with Some show ?thesis
        by (simp add: planned_calls_def emit_def fs)
    next
      case None
      obtain r w3 where fa: "for_artifacts e ?dir as ?w2 = (r, w3)"
        by (cases "for_artifacts e ?dir as ?w2") auto
      from for_artifacts_calls[of e folder as ?w2] fa
      have r: "r = (case first_failure e ?writes of None \<Rightarrow> Inr () | Some err \<Rightarrow> Inl err)"
        and t: "filter is_fs_effect (trace w3) =
                  filter is_fs_effect (trace w) @ CreateDirectory ?dir # calls_made e ?writes"
        by (simp_all add: emit_def fs)
      show ?thesis
      proof (cases "first_failure e ?writes")
        case n: None
        with r have "downloadArtifacts e sessionId w =
            (Inr (length as),
             emit (ShowInformationMessage (''Downloaded '' @ show_nat (length as)
                     @ '' artifact(s) to output/'')) w3)"
          by (simp add: d fs_createDirectory_def None fa)
        with None n t show ?thesis
          by (simp add: planned_calls_def emit_def)
      next
        case s: (Some err)
        with r have "downloadArtifacts e sessionId w = (Inl err, w3)"
          by (simp add: d fs_createDirectory_def None fa)
        with None s t show ?thesis
          by (simp add: planned_calls_def)
      qed
    qed
  qed
  have clean: "fst (downloadArtifacts e sessionId w) = Inr (length as) \<and>
      filter is_fs_effect (trace (snd (downloadArtifacts e sessionId w)))
        = filter is_fs_effect (trace w)
          @ CreateDirectory (Uri folder [''output''])
          # concat (map (artifact_writes folder) as)"
    if a: "arts = Some as \<and> as \<noteq> []"
      and ok: "\<forall>c \<in> set (planned_calls folder as). fs_failure e c = None" for as
    using full[OF a] no_failure_calls[OF ok] by (simp add: planned_calls_def)
  from empty full clean show ?thesis by blast
qed

theorem download_writes_every_artifact_as_text_witness:
  "workspaceFolders (artifacts_env [header_artifact, binary_artifact]) = [''file:///ws''] \<and>
   fst (apiFetch (artifacts_env [header_artifact, binary_artifact])
          ''/api/v1/sessions/s1/artifacts'' ''GET'' None sample_world)
     = Inr \<lparr> status = 200, body = Some ''{}'' \<rparr> \<and>
   fst (downloadArtifacts (artifacts_env [header_artifact, binary_artifact]) ''s1'' sample_world)
     = Inr 2 \<and>
   filter is_fs_effect
     (trace (snd (downloadArtifacts (artifacts_env [header_artifact, binary_artifact]) ''s1''
                    sample_world))) =
     [CreateDirectory (Uri ''file:///ws'' [''output'']),
      CreateDirectory (Uri ''file:///ws'' [''output'', ''a.h'', ''..'']),
      WriteFile (Uri ''file:///ws'' [''output'', ''a.h'']) ''x'',
      CreateDirectory (Uri ''file:///ws'' [''output'', ''b.bin'', ''..'']),
      WriteFile (Uri ''file:///ws'' [''output'', ''b.bin'']) ''AAEC''] \<and>
   fst (downloadArtifacts (artifacts_env []) ''s1'' sample_world) = Inr 0 \<and>
   filter is_fs_effect (trace (snd (downloadArtifacts (artifacts_env []) ''s1'' sample_world))) = [] \<and>
   fst (downloadArtifacts (refusing_env [header_artifact, binary_artifact, text_artifact]) ''s1''
          sample_world) = Inl disk_error \<and>
   filter is_fs_effect
     (trace (snd (downloadArtifacts (refusing_env [header_artifact, binary_artifact, text_artifact])
                    ''s1'' sample_world))) =
     [CreateDirectory (Uri ''file:///ws'' [''output'']),
      CreateDirectory (Uri ''file:///ws'' [''output'', ''a.h'', ''..'']),
      WriteFile (Uri ''file:///ws'' [''output'', ''a.h'']) ''x'',
      CreateDirectory (Uri ''file:///ws'' [''output'', ''b.bin'', ''..'']),
      WriteFile (Uri ''file:///ws'' [''output'', ''b.bin'']) ''AAEC'']"
proof -
  let ?as = "[header_artifact, binary_artifact]"
  let ?bs = "[header_artifact, binary_artifact, text_artifact]"
  let ?e = "artifacts_env ?as"
  let ?emp = "artifacts_env []"
  let ?r = "refusing_env ?bs"
  let ?p = "''/api/v1/sessions/'' @ ''s1'' @ ''/artifacts''"
  let ?res = "\<lparr> status = 200, body = Some ''{}'' \<rparr>"
  let ?calls = "[CreateDirectory (Uri ''file:///ws'' [''output'']),
      CreateDirectory (Uri ''file:///ws'' [''output'', ''a.h'', ''..'']),
      WriteFile (Uri ''file:///ws'' [''output'', ''a.h'']) ''x'',
      CreateDirectory (Uri ''file:///ws'' [''output'', ''b.bin'', ''..'']),
      WriteFile (Uri ''file:///ws'' [''output'', ''b.bin'']) ''AAEC'']"
  have wf: "workspaceFolders ?e = ''file:///ws'' # []"
    by (simp add: artifacts_env_def sample_env_def)
  have wfe: "workspaceFolders ?emp = ''file:///ws'' # []"
    by (simp add: artifacts_env_def sample_env_def)
  have wfr: "workspaceFolders ?r = ''file:///ws'' # []"
    by (simp add: refusing_env_def artifacts_env_def sample_env_def)
  have f: "fst (apiFetch ?e ?p ''GET'' None sample_world) = Inr ?res" by code_simp
  then have a: "apiFetch ?e ?p ''GET'' None sample_world
      = (Inr ?res, snd (apiFetch ?e ?p ''GET'' None sample_world))"
    by (simp add: prod_eq_iff)
  have fe: "fst (apiFetch ?emp ?p ''GET'' None sample_world) = Inr ?res" by code_simp
  then have ae: "apiFetch ?emp ?p ''GET'' None sample_world
      = (Inr ?res, snd (apiFetch ?emp ?p ''GET'' None sample_world))"
    by (simp add: prod_eq_iff)
  have fr: "fst (apiFetch ?r ?p ''GET'' None sample_world) = Inr ?res" by code_simp
  then have ar: "apiFetch ?r ?p ''GET'' None sample_world
      = (Inr ?res, snd (apiFetch ?r ?p ''GET'' None sample_world))"
    by (simp add: prod_eq_iff)
  have r: "read_artifacts ?e ?res = Inr (Some ?as)"
    by (simp add: artifacts_env_def)
  have re: "read_artifacts ?emp ?res = Inr (Some [])"
    by (simp add: artifacts_env_def)
  have rr: "read_artifacts ?r ?res = Inr (Some ?bs)"
    by (simp add: refusing_env_def artifacts_env_def)
  have t0: "filter is_fs_effect (trace sample_world) = []"
    by (simp add: sample_world_def)
  have plan: "planned_calls ''file:///ws'' ?as = ?calls"
    by code_simp
  have fine: "first_failure ?e (planned_calls ''file:///ws'' ?as) = None"
    by code_simp
  have made: "calls_made ?e (planned_calls ''file:///ws'' ?as) = ?calls"
    by code_simp
  have refused: "first_failure ?r (planned_calls ''file:///ws'' ?bs) = Some disk_error"
    by code_simp
  have stopped: "calls_made ?r (planned_calls ''file:///ws'' ?bs) = ?calls"
    by code_simp
  have prem: "Some ?as = Some ?as \<and> ?as \<noteq> []"
    by simp
  have premr: "Some ?bs = Some ?bs \<and> ?bs \<noteq> []"
    by simp
  note full = download_writes_every_artifact_as_text[OF wf a r, THEN conjunct2, rule_format,
      OF prem]
  note none = download_writes_every_artifact_as_text[OF wfe ae re, THEN conjunct1, rule_format,
      OF disjI2, OF refl]
  note part = download_writes_every_artifact_as_text[OF wfr ar rr, THEN conjunct2, rule_format,
      OF premr]
  from full[THEN conjunct1] have c: "fst (downloadArtifacts ?e ''s1'' sample_world) = Inr 2"
    unfolding fine by simp
  from full[THEN conjunct2, THEN conjunct1]
  have d: "filter is_fs_effect (trace (snd (downloadArtifacts ?e ''s1'' sample_world))) = ?calls"
    unfolding t0 made by simp
  from none[THEN conjunct1] have n1: "fst (downloadArtifacts ?emp ''s1'' sample_world) = Inr 0" .
  from none[THEN conjunct2]
  have n2: "filter is_fs_effect (trace (snd (downloadArtifacts ?emp ''s1'' sample_world))) = []"
    unfolding t0 .
  from part[THEN conjunct1]
  have p1: "fst (downloadArtifacts ?r ''s1'' sample_world) = Inl disk_error"
    unfolding refused by simp
  from part[THEN conjunct2, THEN conjunct1]
  have p2: "filter is_fs_effect (trace (snd (downloadArtifacts ?r ''s1'' sample_world))) = ?calls"
    unfolding t0 stopped by simp
  have f': "fst (apiFetch ?e ''/api/v1/sessions/s1/artifacts'' ''GET'' None sample_world) = Inr ?res"
    using f by simp
  have wf': "workspaceFolders ?e = [''file:///ws'']"
    using wf by simp
  from wf' f' c d n1 n2 p1 p2 show ?thesis by blast
qed

text \<open>
  C7, as stated, fails for a 403 whose body is \<^verbatim>\<open>Access denied\<close>: the body contains none
  of \<^verbatim>\<open>expired\<close>, \<^verbatim>\<open>invalid\<close>, \<^verbatim>\<open>unauthorized\<close>, yet the stored key is deleted and the
  authentication failure is raised.
\<close>

theorem access_denied_counterexample:
  "\<not> js_includes (toLowerCase ''Access denied'') ''expired'' \<and>
   \<not> js_includes (toLowerCase ''Access denied'') ''invalid'' \<and>
   \<not> js_includes (toLowerCase ''Access denied'') ''unauthorized'' \<and>
   apiKey sample_world = Some ''rfx_key'' \<and>
   fst (apiFetch (answering_env 403 ''Access denied'') ''/api/ext/config'' ''GET'' None sample_world)
     = Inl (new_Error ''Authentication failed (403): Access denied'') \<and>
   apiKey (snd (apiFetch (answering_env 403 ''Access denied'') ''/api/ext/config'' ''GET'' None
                  sample_world)) = None"
  by code_simp

text \<open>
  C7, amended. A request that was sent with key \<open>k\<close> and answered with a 401 or 403:
  when the lower-cased body contains \<^verbatim>\<open>expired\<close>, \<^verbatim>\<open>invalid\<close>, \<^verbatim>\<open>unauthorized\<close> or
  \<^verbatim>\<open>access denied\<close>, the stored key is deleted and the call fails with
  \<^verbatim>\<open>Authentication failed (status): body\<close>; otherwise the call fails with
  \<^verbatim>\<open>status body\<close> and the stored key stays as it was when the request was sent.
\<close>

theorem auth_failure_classification:
  assumes "ensureApiKey e w = (Some k, w1)"
    and "http e method (baseUrl e @ path) k payload = Inr res"
    and "status res = 401 \<or> status res = 403"
    and "text = (case body res of None \<Rightarrow> [] | Some t \<Rightarrow> t)"
  shows "(auth_failure_text text \<longrightarrow>
            fst (apiFetch e path method payload w) =
              Inl (new_Error (''Authentication failed ('' @ show_nat (status res) @ ''): '' @ text)) \<and>
            apiKey (snd (apiFetch e path method payload w)) = None) \<and>
         (\<not> auth_failure_text text \<longrightarrow>
            fst (apiFetch e path method payload w) =
              Inl (new_Error (show_nat (status res) @ '' '' @ text)) \<and>
            apiKey (snd (apiFetch e path method payload w)) = apiKey w1)"
proof -
  from assms(3) have nok: "\<not> ok res" by (auto simp: ok_def)
  show ?thesis
  proof (cases "auth_failure_text text")
    case True
    with assms nok show ?thesis
      by (simp add: apiFetch_def Let_def emit_def)
  next
    case False
    with assms nok show ?thesis
      by (simp add: apiFetch_def Let_def emit_def)
  qed
qed

theorem auth_failure_classification_witness:
  "ensureApiKey (answering_env 403 ''Token EXPIRED'') sample_world = (Some ''rfx_key'', sample_world) \<and>
   auth_failure_text ''Token EXPIRED'' \<and>
   fst (apiFetch (answering_env 403 ''Token EXPIRED'') ''/api/ext/config'' ''GET'' None sample_world)
     = Inl (new_Error ''Authentication failed (403): Token EXPIRED'') \<and>
   apiKey (snd (apiFetch (answering_env 403 ''Token EXPIRED'') ''/api/ext/config'' ''GET'' None
                  sample_world)) = None \<and>
   ensureApiKey (answering_env 403 ''Forbidden'') sample_world = (Some ''rfx_key'', sample_world) \<and>
   \<not> auth_failure_text ''Forbidden'' \<and>
   fst (apiFetch (answering_env 403 ''Forbidden'') ''/api/ext/config'' ''GET'' None sample_world)
     = Inl (new_Error ''403 Forbidden'') \<and>
   apiKey (snd (apiFetch (answering_env 403 ''Forbidden'') ''/api/ext/config'' ''GET'' None
                  sample_world)) = Some ''rfx_key''"
proof -
  let ?res1 = "\<lparr> status = 403, body = Some ''Token EXPIRED'' \<rparr>"
  let ?res2 = "\<lparr> status = 403, body = Some ''Forbidden'' \<rparr>"
  have k1: "ensureApiKey (answering_env 403 ''Token EXPIRED'') sample_world
      = (Some ''rfx_key'', sample_world)"
    by code_simp
  have k2: "ensureApiKey (answering_env 403 ''Forbidden'') sample_world
      = (Some ''rfx_key'', sample_world)"
    by code_simp
  have r1: "http (answering_env 403 ''Token EXPIRED'') ''GET''
      (baseUrl (answering_env 403 ''Token EXPIRED'') @ ''/api/ext/config'') ''rfx_key'' None = Inr ?res1"
    by (simp add: answering_env_def)
  have r2: "http (answering_env 403 ''Forbidden'') ''GET''
      (baseUrl (answering_env 403 ''Forbidden'') @ ''/api/ext/config'') ''rfx_key'' None = Inr ?res2"
    by (simp add: answering_env_def)
  have s1: "status ?res1 = 401 \<or> status ?res1 = 403" by simp
  have s2: "status ?res2 = 401 \<or> status ?res2 = 403" by simp
  have t1: "''Token EXPIRED'' = (case body ?res1 of None \<Rightarrow> [] | Some t \<Rightarrow> t)" by simp
  have t2: "''Forbidden'' = (case body ?res2 of None \<Rightarrow> [] | Some t \<Rightarrow> t)" by simp
  have a1: "auth_failure_text ''Token EXPIRED''" by code_simp
  have a2: "\<not> auth_failure_text ''Forbidden''" by code_simp
  have n: "show_nat 403 = ''403''" by code_simp
  have key: "apiKey sample_world = Some ''rfx_key''" by (simp add: sample_world_def)
  from auth_failure_classification[OF k1 r1 s1 t1] a1
  have c1: "fst (apiFetch (answering_env 403 ''Token EXPIRED'') ''/api/ext/config'' ''GET'' None sample_world)
     = Inl (new_Error ''Authentication failed (403): Token EXPIRED'') \<and>
   apiKey (snd (apiFetch (answering_env 403 ''Token EXPIRED'') ''/api/ext/config'' ''GET'' None
                  sample_world)) = None"
    by (simp add: n)
  from auth_failure_classification[OF k2 r2 s2 t2] a2
  have c2: "fst (apiFetch (answering_env 403 ''Forbidden'') ''/api/ext/config'' ''GET'' None sample_world)
     = Inl (new_Error ''403 Forbidden'') \<and>
   apiKey (snd (apiFetch (answering_env 403 ''Forbidden'') ''/api/ext/config'' ''GET'' None
                  sample_world)) = Some ''rfx_key''"
    by (simp add: n key)
  from k1 k2 a1 a2 c1 c2 show ?thesis by simp
qed

text \<open>
  C8. A frame whose payload \<^verbatim>\<open>JSON.parse\<close> rejects is dropped and the loop goes on with
  the next frame: handling it changes neither the accumulated response nor the state and
  ends neither the loop nor the monitor; the monitor ends as it would on the remaining
  frames alone, and the decoder yields the events of the remaining frames. If a Complete
  frame follows, the monitor returns at it as for a completed session; and when the
  frames around the bad one are Content events followed by Complete, the monitor
  forwards the texts of all of them, those before and those after the bad frame, as one
  message.
\<close>

theorem malformed_frame_is_dropped:
  assumes "connected e sessionId w k stream"
    and "\<forall>n. \<not> token e n"
    and "stream_frames (chunks stream) = ps @ bad # qs"
    and "parse_frame e bad = None"
  shows "process_part e bad r w0 = (Normal, r, w0) \<and>
         monitorSession e sessionId w =
           finish (read_error stream)
             (for_parts e (ps @ qs) [] (emit (FetchStream (sse_url e sessionId) k) w)) \<and>
         decode_stream e [] (chunks stream) = List.map_filter (parse_frame e) (ps @ qs) \<and>
         ((\<exists>q \<in> set qs. is_event e ''complete'' q) \<longrightarrow>
            fst (monitorSession e sessionId w) = Inr AtComplete) \<and>
         (\<forall>ms ns qs1 c qs2.
            list_all2 (is_content e) ps ms \<and> qs = qs1 @ c # qs2 \<and>
            list_all2 (is_content e) qs1 ns \<and> is_event e ''complete'' c \<longrightarrow>
            monitorSession e sessionId w =
              (Inr AtComplete,
               if concat (ms @ ns) \<noteq> []
               then emit (ChatAddMessage ''assistant'' (concat (ms @ ns)))
                      (emit (FetchStream (sse_url e sessionId) k) w)
               else emit (FetchStream (sse_url e sessionId) k) w))"
proof (intro conjI impI allI)
  let ?w1 = "emit (FetchStream (sse_url e sessionId) k) w"
  show "process_part e bad r w0 = (Normal, r, w0)"
    by (rule process_part_unparsed[OF assms(4)])
  show m: "monitorSession e sessionId w = finish (read_error stream) (for_parts e (ps @ qs) [] ?w1)"
    by (simp only: monitorSession_frames[OF assms(1,2)] assms(3)
          for_parts_drop_unparsed[OF assms(4)])
  have nil: "js_split [LF, LF] [] = [[]]" by simp
  have "decode_stream e [] (chunks stream) =
      List.map_filter (parse_frame e) (stream_frames (chunks stream))"
    by (simp add: decode_stream_frames[OF nil] stream_frames_def)
  then show "decode_stream e [] (chunks stream) = List.map_filter (parse_frame e) (ps @ qs)"
    by (simp add: assms(3,4) List.map_filter_def)
  {
    assume "\<exists>q \<in> set qs. is_event e ''complete'' q"
    then have "\<exists>q \<in> set (ps @ qs). is_event e ''complete'' q" by auto
    from for_parts_some_complete[OF this, of "[]" ?w1]
    obtain r1 w2 where "for_parts e (ps @ qs) [] ?w1 = (Returned, r1, w2)"
      by (cases "for_parts e (ps @ qs) [] ?w1") auto
    then show "fst (monitorSession e sessionId w) = Inr AtComplete"
      by (simp add: m finish_def)
  }
  fix ms ns qs1 c qs2
  assume h: "list_all2 (is_content e) ps ms \<and> qs = qs1 @ c # qs2 \<and>
      list_all2 (is_content e) qs1 ns \<and> is_event e ''complete'' c"
  then have "list_all2 (is_content e) (ps @ qs1) (ms @ ns)"
    by (simp add: list_all2_appendI)
  define t where "t = concat (ms @ ns)"
  from for_parts_content[OF \<open>list_all2 (is_content e) (ps @ qs1) (ms @ ns)\<close>, of "[]" ?w1]
  have a: "for_parts e (ps @ qs1) [] ?w1 = (Normal, t, ?w1)"
    by (simp add: t_def)
  from h have cc: "is_event e ''complete'' c" by simp
  have b: "for_parts e (c # qs2) t ?w1 =
      (Returned, t, if t \<noteq> [] then emit (ChatAddMessage ''assistant'' t) ?w1 else ?w1)"
    by (subst for_parts.simps, subst process_part_complete[OF cc, of t ?w1]) simp
  from h have "ps @ qs = (ps @ qs1) @ c # qs2" by simp
  then have "for_parts e (ps @ qs) [] ?w1 = for_parts e ((ps @ qs1) @ c # qs2) [] ?w1"
    by (rule arg_cong)
  also have "\<dots> = for_parts e (c # qs2) t ?w1"
    by (subst for_parts_append, subst a) simp
  finally have "for_parts e (ps @ qs) [] ?w1 =
      (Returned, t, if t \<noteq> [] then emit (ChatAddMessage ''assistant'' t) ?w1 else ?w1)"
    by (simp only: b)
  then have "monitorSession e sessionId w =
      (Inr AtComplete, if t \<noteq> [] then emit (ChatAddMessage ''assistant'' t) ?w1 else ?w1)"
    by (simp add: m finish_def)
  then show "monitorSession e sessionId w =
      (Inr AtComplete,
       if concat (ms @ ns) \<noteq> []
       then emit (ChatAddMessage ''assistant'' (concat (ms @ ns))) ?w1 else ?w1)"
    by (simp only: t_def)
qed

theorem malformed_frame_is_dropped_witness:
  "connected (sample_env bad_frame_example) ''s1'' sample_world ''rfx_key''
     \<lparr> chunks = bad_frame_example, read_error = None \<rparr> \<and>
   (\<forall>n. \<not> token (sample_env bad_frame_example) n) \<and>
   stream_frames bad_frame_example = [hello_frame] @ bad_frame # [world_frame, complete_frame] \<and>
   parse_frame (sample_env bad_frame_example) bad_frame = None \<and>
   list_all2 (is_content (sample_env bad_frame_example)) [hello_frame] [''Hello, ''] \<and>
   list_all2 (is_content (sample_env bad_frame_example)) [world_frame] [''world!''] \<and>
   is_event (sample_env bad_frame_example) ''complete'' complete_frame \<and>
   process_part (sample_env bad_frame_example) bad_frame ''Hello, '' sample_world
     = (Normal, ''Hello, '', sample_world) \<and>
   decode_stream (sample_env bad_frame_example) [] bad_frame_example
     = [JObj [(''type'', JStr ''content''), (''message'', JStr ''Hello, '')],
        JObj [(''type'', JStr ''content''), (''message'', JStr ''world!'')],
        JObj [(''type'', JStr ''complete'')]] \<and>
   monitorSession (sample_env bad_frame_example) ''s1'' sample_world =
     (Inr AtComplete,
      sample_world\<lparr>trace := [FetchStream sample_sse_url ''rfx_key'',
                              ChatAddMessage ''assistant'' ''Hello, world!'']\<rparr>)"
proof -
  let ?e = "sample_env bad_frame_example"
  let ?s = "\<lparr> chunks = bad_frame_example, read_error = None \<rparr>"
  have h1: "connected ?e ''s1'' sample_world ''rfx_key'' ?s"
    by code_simp
  have h2: "\<forall>n. \<not> token ?e n"
    by (simp add: sample_env_def)
  have h3: "stream_frames (chunks ?s) = [hello_frame] @ bad_frame # [world_frame, complete_frame]"
    by code_simp
  have h4: "parse_frame ?e bad_frame = None"
    by code_simp
  have c1: "is_content ?e hello_frame ''Hello, ''"
    by code_simp
  have c2: "is_content ?e world_frame ''world!''"
    by code_simp
  have l1: "list_all2 (is_content ?e) [hello_frame] [''Hello, '']"
    using c1 by simp
  have l2: "list_all2 (is_content ?e) [world_frame] [''world!'']"
    using c2 by simp
  have h5: "is_event ?e ''complete'' complete_frame"
    by code_simp
  have v: "List.map_filter (parse_frame ?e) ([hello_frame] @ [world_frame, complete_frame])
      = [JObj [(''type'', JStr ''content''), (''message'', JStr ''Hello, '')],
         JObj [(''type'', JStr ''content''), (''message'', JStr ''world!'')],
         JObj [(''type'', JStr ''complete'')]]"
    by code_simp
  have u: "sse_url ?e ''s1'' = sample_sse_url"
    by code_simp
  note dropped = malformed_frame_is_dropped[OF h1 h2 h3 h4, of "''Hello, ''" sample_world]
  from dropped have p: "process_part ?e bad_frame ''Hello, '' sample_world
      = (Normal, ''Hello, '', sample_world)"
    by (rule conjunct1)
  from dropped have "decode_stream ?e [] (chunks ?s)
      = List.map_filter (parse_frame ?e) ([hello_frame] @ [world_frame, complete_frame])"
    by blast
  then have d: "decode_stream ?e [] bad_frame_example
      = [JObj [(''type'', JStr ''content''), (''message'', JStr ''Hello, '')],
         JObj [(''type'', JStr ''content''), (''message'', JStr ''world!'')],
         JObj [(''type'', JStr ''complete'')]]"
    unfolding v by simp
  have around: "list_all2 (is_content ?e) [hello_frame] [''Hello, ''] \<and>
      [world_frame, complete_frame] = [world_frame] @ complete_frame # [] \<and>
      list_all2 (is_content ?e) [world_frame] [''world!''] \<and>
      is_event ?e ''complete'' complete_frame"
    using l1 l2 h5 by simp
  from dropped have "\<forall>ms ns qs1 c qs2.
      list_all2 (is_content ?e) [hello_frame] ms \<and>
      [world_frame, complete_frame] = qs1 @ c # qs2 \<and>
      list_all2 (is_content ?e) qs1 ns \<and> is_event ?e ''complete'' c \<longrightarrow>
      monitorSession ?e ''s1'' sample_world =
        (Inr AtComplete,
         if concat (ms @ ns) \<noteq> []
         then emit (ChatAddMessage ''assistant'' (concat (ms @ ns)))
                (emit (FetchStream (sse_url ?e ''s1'') ''rfx_key'') sample_world)
         else emit (FetchStream (sse_url ?e ''s1'') ''rfx_key'') sample_world)"
    by blast
  from this[rule_format, OF around]
  have m: "monitorSession ?e ''s1'' sample_world =
     (Inr AtComplete,
      sample_world\<lparr>trace := [FetchStream sample_sse_url ''rfx_key'',
                              ChatAddMessage ''assistant'' ''Hello, world!'']\<rparr>)"
    by (simp add: u emit_def sample_world_def)
  from h1 h2 h3 h4 l1 l2 h5 p d m show ?thesis by simp
qed

text \<open>
  C9. \<open>cleanupEphemeralProject\<close> never throws. When its DELETE request succeeds, the
  persisted project id is cleared. When the request fails, the failure is written to
  the output channel and the persisted project id is left as it was, so that
  \<open>getEphemeralProject\<close> afterwards returns the same id without a request.
\<close>

theorem cleanup_keeps_handle_on_failure:
  assumes "w1 = emit (AppendLine (''Cleaning up ephemeral project: '' @ projectId)) w"
    and "path = ''/api/v1/projects/'' @ projectId @ ''/cleanup''"
  shows "(apiFetch e path ''DELETE'' None w1 = (Inr res, w2) \<longrightarrow>
            fst (cleanupEphemeralProject e projectId w) = Inr () \<and>
            ephemeralProjectId (snd (cleanupEphemeralProject e projectId w)) = None) \<and>
         (apiFetch e path ''DELETE'' None w1 = (Inl err, w2) \<longrightarrow>
            cleanupEphemeralProject e projectId w =
              (Inr (), emit (AppendLine (''Failed to cleanup project: '' @ error_to_string err)) w2) \<and>
            ephemeralProjectId (snd (cleanupEphemeralProject e projectId w)) = ephemeralProjectId w \<and>
            (ephemeralProjectId w = Some projectId \<and> projectId \<noteq> [] \<longrightarrow>
               getEphemeralProject e (snd (cleanupEphemeralProject e projectId w)) =
                 (Inr projectId, snd (cleanupEphemeralProject e projectId w))))"
proof (intro conjI impI)
  assume a: "apiFetch e path ''DELETE'' None w1 = (Inr res, w2)"
  with assms show "fst (cleanupEphemeralProject e projectId w) = Inr ()"
    by (simp add: cleanupEphemeralProject_def Let_def)
  from a assms show "ephemeralProjectId (snd (cleanupEphemeralProject e projectId w)) = None"
    by (simp add: cleanupEphemeralProject_def Let_def emit_def)
next
  assume a: "apiFetch e path ''DELETE'' None w1 = (Inl err, w2)"
  with assms show c: "cleanupEphemeralProject e projectId w =
      (Inr (), emit (AppendLine (''Failed to cleanup project: '' @ error_to_string err)) w2)"
    by (simp add: cleanupEphemeralProject_def Let_def)
  from apiFetch_workspace[of e path "''DELETE''" None w1] a assms(1)
  have "ephemeralProjectId w2 = ephemeralProjectId w" by (simp add: emit_def)
  then show k: "ephemeralProjectId (snd (cleanupEphemeralProject e projectId w)) = ephemeralProjectId w"
    by (simp add: c emit_def)
  assume "ephemeralProjectId w = Some projectId \<and> projectId \<noteq> []"
  with k show "getEphemeralProject e (snd (cleanupEphemeralProject e projectId w)) =
      (Inr projectId, snd (cleanupEphemeralProject e projectId w))"
    by (simp add: getEphemeralProject_def)
qed

theorem cleanup_keeps_handle_on_failure_witness:
  "fst (apiFetch (sample_env []) ''/api/v1/projects/p1/cleanup'' ''DELETE'' None
          (emit (AppendLine ''Cleaning up ephemeral project: p1'') project_world))
     = Inr \<lparr> status = 200, body = Some ''{}'' \<rparr> \<and>
   fst (cleanupEphemeralProject (sample_env []) ''p1'' project_world) = Inr () \<and>
   ephemeralProjectId (snd (cleanupEphemeralProject (sample_env []) ''p1'' project_world)) = None \<and>
   fst (apiFetch (answering_env 500 ''boom'') ''/api/v1/projects/p1/cleanup'' ''DELETE'' None
          (emit (AppendLine ''Cleaning up ephemeral project: p1'') project_world))
     = Inl (new_Error ''500 boom'') \<and>
   fst (cleanupEphemeralProject (answering_env 500 ''boom'') ''p1'' project_world) = Inr () \<and>
   last (trace (snd (cleanupEphemeralProject (answering_env 500 ''boom'') ''p1'' project_world)))
     = AppendLine ''Failed to cleanup project: Error: 500 boom'' \<and>
   ephemeralProjectId (snd (cleanupEphemeralProject (answering_env 500 ''boom'') ''p1'' project_world))
     = Some ''p1'' \<and>
   fst (getEphemeralProject (answering_env 500 ''boom'')
          (snd (cleanupEphemeralProject (answering_env 500 ''boom'') ''p1'' project_world)))
     = Inr ''p1''"
proof -
  let ?w1 = "emit (AppendLine (''Cleaning up ephemeral project: '' @ ''p1'')) project_world"
  let ?p = "''/api/v1/projects/'' @ ''p1'' @ ''/cleanup''"
  let ?ok = "apiFetch (sample_env []) ?p ''DELETE'' None ?w1"
  let ?ko = "apiFetch (answering_env 500 ''boom'') ?p ''DELETE'' None ?w1"
  let ?res = "\<lparr> status = 200, body = Some ''{}'' \<rparr>"
  have f1: "fst ?ok = Inr ?res" by code_simp
  then have a1: "?ok = (Inr ?res, snd ?ok)" by (simp add: prod_eq_iff)
  have f2: "fst ?ko = Inl (new_Error ''500 boom'')" by code_simp
  then have a2: "?ko = (Inl (new_Error ''500 boom''), snd ?ko)" by (simp add: prod_eq_iff)
  have pw: "ephemeralProjectId project_world = Some ''p1'' \<and> ''p1'' \<noteq> []"
    by (simp add: project_world_def)
  have es: "error_to_string (new_Error ''500 boom'') = ''Error: 500 boom''"
    by code_simp
  from cleanup_keeps_handle_on_failure[OF refl refl, of "sample_env []" "''p1''" project_world ?res "snd ?ok"] a1
  have s: "fst (cleanupEphemeralProject (sample_env []) ''p1'' project_world) = Inr () \<and>
     ephemeralProjectId (snd (cleanupEphemeralProject (sample_env []) ''p1'' project_world)) = None"
    by blast
  from cleanup_keeps_handle_on_failure[OF refl refl, of "answering_env 500 ''boom''" "''p1''"
      project_world _ "snd ?ko" "new_Error ''500 boom''"] a2 pw
  have f: "cleanupEphemeralProject (answering_env 500 ''boom'') ''p1'' project_world =
       (Inr (), emit (AppendLine (''Failed to cleanup project: ''
          @ error_to_string (new_Error ''500 boom''))) (snd ?ko)) \<and>
     ephemeralProjectId (snd (cleanupEphemeralProject (answering_env 500 ''boom'') ''p1'' project_world))
       = ephemeralProjectId project_world \<and>
     getEphemeralProject (answering_env 500 ''boom'')
         (snd (cleanupEphemeralProject (answering_env 500 ''boom'') ''p1'' project_world)) =
       (Inr ''p1'', snd (cleanupEphemeralProject (answering_env 500 ''boom'') ''p1'' project_world))"
    by blast
  note f_eq = f[THEN conjunct1]
  note f_id = f[THEN conjunct2, THEN conjunct1]
  note f_get = f[THEN conjunct2, THEN conjunct2]
  from f_eq have l: "last (trace (snd (cleanupEphemeralProject (answering_env 500 ''boom'') ''p1''
      project_world))) = AppendLine ''Failed to cleanup project: Error: 500 boom''"
    by (simp add: es emit_def)
  from f_eq have r: "fst (cleanupEphemeralProject (answering_env 500 ''boom'') ''p1'' project_world)
      = Inr ()"
    by simp
  from f_id pw have i: "ephemeralProjectId (snd (cleanupEphemeralProject (answering_env 500 ''boom'')
      ''p1'' project_world)) = Some ''p1''"
    by simp
  from f_get have g: "fst (getEphemeralProject (answering_env 500 ''boom'')
      (snd (cleanupEphemeralProject (answering_env 500 ''boom'') ''p1'' project_world))) = Inr ''p1''"
    by simp
  from f1 f2 s r l i g show ?thesis by simp
qed

text \<open>
  C10. A session run that reaches the monitor and whose monitor ends with the error
  \<^verbatim>\<open>User cancelled\<close>: \<open>startAISession\<close> ends in the very state in which the monitor
  ended, so it fetches no artifact list, writes no file, does not clean the project up
  and reports nothing; the persisted project id is the one the dispatch left; and over
  the whole run there is no GET or DELETE request, no file system call and no error
  notification.
\<close>

theorem cancelled_session_skips_completion:
  assumes "user_message e = Some message" and "message \<noteq> []"
    and "selected_mode e = Some selectedMode"
    and "session_dispatch e message (computeConfig_of selectedMode)
           (emit (ChatAddMessage ''user'' message) w) = (Inr (projectId, sessionId), w1)"
    and "monitorSession e sessionId (emit (ProgressReport (Some (JStr ''Processing...''))) w1)
           = (Inl err, w2)"
    and "err_message err = ''User cancelled''"
  shows "startAISession e w = w2 \<and>
         ephemeralProjectId (startAISession e w) = ephemeralProjectId w1 \<and>
         filter completion_or_alarm (trace (startAISession e w))
           = filter completion_or_alarm (trace w)"
proof -
  have run: "session_run e projectId sessionId w1 = (Inl err, w2)"
    using assms(5) by (simp add: session_run_def Let_def)
  have "session_try e message (computeConfig_of selectedMode)
          (emit (ChatAddMessage ''user'' message) w) = (Inl err, w2)"
    using assms(4) run by (simp add: session_try_def)
  then have s: "startAISession e w = w2"
    using assms(1,2,3,6) by (simp add: startAISession_def Let_def)
  from monitorSession_cancelled_quiet[OF assms(5,6)]
  have m: "filter completion_or_alarm (trace w2) = filter completion_or_alarm (trace w1)"
    and i: "ephemeralProjectId w2 = ephemeralProjectId w1"
    by (simp_all add: emit_def)
  from session_dispatch_quiet[OF assms(4)]
  have d: "filter completion_or_alarm (trace w1) = filter completion_or_alarm (trace w)"
    by (simp add: emit_def)
  from s m i d show ?thesis by simp
qed

theorem cancelled_session_skips_completion_witness:
  "user_message (cancelled_env hello_example) = Some ''Create a traffic light controller'' \<and>
   selected_mode (cancelled_env hello_example) = Some BasicItem \<and>
   fst (session_dispatch (cancelled_env hello_example) ''Create a traffic light controller''
          (computeConfig_of BasicItem)
          (emit (ChatAddMessage ''user'' ''Create a traffic light controller'') sample_world))
     = Inr (''p1'', ''s1'') \<and>
   fst (monitorSession (cancelled_env hello_example) ''s1''
          (emit (ProgressReport (Some (JStr ''Processing...'')))
             (snd (session_dispatch (cancelled_env hello_example)
                     ''Create a traffic light controller'' (computeConfig_of BasicItem)
                     (emit (ChatAddMessage ''user'' ''Create a traffic light controller'')
                        sample_world)))))
     = Inl (new_Error ''User cancelled'') \<and>
   ephemeralProjectId (startAISession (cancelled_env hello_example) sample_world) = Some ''p1'' \<and>
   filter completion_or_alarm (trace (startAISession (cancelled_env hello_example) sample_world))
     = []"
proof -
  let ?e = "cancelled_env hello_example"
  let ?m = "''Create a traffic light controller''"
  let ?d = "session_dispatch ?e ?m (computeConfig_of BasicItem)
              (emit (ChatAddMessage ''user'' ?m) sample_world)"
  let ?mon = "monitorSession ?e ''s1'' (emit (ProgressReport (Some (JStr ''Processing...''))) (snd ?d))"
  have h1: "user_message ?e = Some ?m"
    by (simp add: cancelled_env_def sample_env_def)
  have h2: "?m \<noteq> []" by simp
  have h3: "selected_mode ?e = Some BasicItem"
    by (simp add: cancelled_env_def sample_env_def)
  have fd: "fst ?d = Inr (''p1'', ''s1'')" by code_simp
  then have h4: "?d = (Inr (''p1'', ''s1''), snd ?d)" by (simp add: prod_eq_iff)
  have fm: "fst ?mon = Inl (new_Error ''User cancelled'')" by code_simp
  then have h5: "?mon = (Inl (new_Error ''User cancelled''), snd ?mon)" by (simp add: prod_eq_iff)
  have h6: "err_message (new_Error ''User cancelled'') = ''User cancelled''"
    by (simp add: new_Error_def)
  have p: "ephemeralProjectId (snd ?d) = Some ''p1''" by code_simp
  have t: "filter completion_or_alarm (trace sample_world) = []"
    by (simp add: sample_world_def)
  note c = cancelled_session_skips_completion[OF h1 h2 h3 h4 h5 h6]
  from c[THEN conjunct2, THEN conjunct1] p
  have a: "ephemeralProjectId (startAISession ?e sample_world) = Some ''p1''" by simp
  from c[THEN conjunct2, THEN conjunct2] t
  have b: "filter completion_or_alarm (trace (startAISession ?e sample_world)) = []" by simp
  from h1 h3 fd fm a b show ?thesis by blast
qed

end
